theory Spec2Isabelle
  imports Main "HOL-Library.Word" "HOL-Library.Sublist"
begin

unbundle bit_operations_syntax

section \<open>The platform file layer of \<^verbatim>\<open>AndroidFileio.cpp\<close>\<close>

text \<open>
  The file is a thin layer over the C library: every operation is a call of
  \<^verbatim>\<open>fopen\<close>, \<^verbatim>\<open>fread\<close>, \<^verbatim>\<open>stat\<close>, \<^verbatim>\<open>opendir\<close>, ... and a little bookkeeping.
  The C library is not part of the repository, so it is a parameter of the model: a
  record of operations over an abstract world \<open>'w\<close> (the file system, the open
  streams and \<^verbatim>\<open>errno\<close>). Every function of the source is translated over that record,
  and every theorem holds for whatever the C library does, unless it names the
  behaviour it needs.
\<close>

subsection \<open>Machine types\<close>

type_synonym U32 = "32 word"
type_synonym S32 = "32 word"  \<comment> \<open>read as two's complement by \<open>sint\<close>\<close>
type_synonym byte = "8 word"
type_synonym FILE = nat       \<comment> \<open>a non-null \<^verbatim>\<open>FILE*\<close>; the null pointer is \<open>None\<close>\<close>

definition MAX_MAC_PATH_LONG :: nat where
  "MAX_MAC_PATH_LONG = 2048"

text \<open>The values of \<^verbatim>\<open>errno.h\<close> that \<^verbatim>\<open>File::setStatus\<close> names.\<close>

definition ENOENT :: int where "ENOENT = 2"
definition EBADF :: int where "EBADF = 9"
definition EACCES :: int where "EACCES = 13"
definition EEXIST :: int where "EEXIST = 17"
definition EINVAL :: int where "EINVAL = 22"
definition ENAMETOOLONG :: int where "ENAMETOOLONG = 36"

subsection \<open>The C library as a parameter\<close>

datatype whence = SEEK_SET | SEEK_CUR

datatype d_type = DT_DIR | DT_REG | DT_LNK | DT_UNKNOWN

record dirent =
  d_name :: string
  d_type :: d_type

datatype st_fmt = S_IFREG | S_IFDIR | S_IFOTHER

record stat_data =
  st_mode_fmt :: st_fmt   \<comment> \<open>\<^verbatim>\<open>st_mode & S_IFMT\<close>\<close>
  st_size :: int
  st_ctime :: int
  st_mtime :: int

text \<open>
  A call that can change the world returns the new world. \<^verbatim>\<open>fread\<close> returns the bytes
  it stored in the destination (their number is its return value), \<^verbatim>\<open>fwrite\<close> takes
  the source buffer and the count. \<^verbatim>\<open>fstat_size\<close> is \<^verbatim>\<open>fstat(fileno(h), &st)\<close>:
  \<open>None\<close> when it fails, the \<^verbatim>\<open>st_size\<close> otherwise. \<^verbatim>\<open>opendir\<close> gives the entries
  that successive \<^verbatim>\<open>readdir\<close> calls return until the null entry, in that order, or
  \<open>None\<close> when the directory does not open. The queries \<^verbatim>\<open>stat\<close>, \<^verbatim>\<open>fstat\<close> and
  \<^verbatim>\<open>opendir\<close> are read as functions of the world: no caller reads \<^verbatim>\<open>errno\<close> after them.
\<close>

record 'w libc =
  errno :: "'w \<Rightarrow> int"
  fopen :: "string \<Rightarrow> string \<Rightarrow> 'w \<Rightarrow> FILE option \<times> 'w"
  fclose :: "FILE \<Rightarrow> 'w \<Rightarrow> int \<times> 'w"
  fseek :: "FILE \<Rightarrow> int \<Rightarrow> whence \<Rightarrow> 'w \<Rightarrow> int \<times> 'w"
  ftell :: "FILE \<Rightarrow> 'w \<Rightarrow> int \<times> 'w"
  fread :: "FILE \<Rightarrow> nat \<Rightarrow> 'w \<Rightarrow> byte list \<times> 'w"
  fwrite :: "FILE \<Rightarrow> byte list \<Rightarrow> nat \<Rightarrow> 'w \<Rightarrow> nat \<times> 'w"
  fstat_size :: "FILE \<Rightarrow> 'w \<Rightarrow> int option"
  stat :: "string \<Rightarrow> 'w \<Rightarrow> stat_data option"
  remove :: "string \<Rightarrow> 'w \<Rightarrow> int \<times> 'w"
  utimes :: "string \<Rightarrow> 'w \<Rightarrow> int \<times> 'w"
  mkdir :: "string \<Rightarrow> 'w \<Rightarrow> int \<times> 'w"
  opendir :: "string \<Rightarrow> 'w \<Rightarrow> dirent list option"

subsection \<open>The File handle\<close>

text \<open>
  Modelled from the spec: the enumerations \<^verbatim>\<open>File::Status\<close>, \<^verbatim>\<open>File::AccessMode\<close> and
  \<^verbatim>\<open>File::Capability\<close> are declared in \<^verbatim>\<open>platform/platformFileIO.h\<close>, which is not among
  the sources. The status values are the five the spec lists, the access modes the four
  of the \<^verbatim>\<open>switch\<close> in \<^verbatim>\<open>File::open\<close>, the capabilities two distinct bits of a mask.
\<close>

datatype Status = Ok | IOError | EOS | Closed | UnknownError

datatype AccessMode = Read | Write | ReadWrite | WriteAppend

definition FileRead :: U32 where "FileRead = 1"
definition FileWrite :: U32 where "FileWrite = 2"

record File =
  currentStatus :: Status
  capability :: U32
  handle :: "FILE option"

text \<open>
  Modelled from the spec: \<^verbatim>\<open>AssertFatal\<close> is a macro of \<^verbatim>\<open>platform/platformAssert.h\<close>,
  not among the sources. The spec calls a failed precondition fatal and
  non-recoverable: the call aborts, which is the \<open>Inl\<close> branch of the result.
  \<^verbatim>\<open>AssertWarn\<close> and \<^verbatim>\<open>Con::warnf\<close> only print and are left out.
\<close>

datatype fatal = AssertFatal string

text \<open>\<^verbatim>\<open>File::File()\<close>\<close>

definition File_File :: File where
  "File_File = \<lparr>currentStatus = Closed, capability = 0, handle = None\<rparr>"

text \<open>\<^verbatim>\<open>File::hasCapability\<close>\<close>

definition hasCapability :: "File \<Rightarrow> U32 \<Rightarrow> bool" where
  "hasCapability f cap \<longleftrightarrow> 0 \<noteq> (cap AND capability f)"

text \<open>\<^verbatim>\<open>File::getStatus\<close>\<close>

definition getStatus :: "File \<Rightarrow> Status" where
  "getStatus f = currentStatus f"

text \<open>
  \<^verbatim>\<open>File::setStatus()\<close>: the \<^verbatim>\<open>switch\<close> on \<^verbatim>\<open>errno\<close>. The cases \<^verbatim>\<open>EBADF\<close>, \<^verbatim>\<open>EINVAL\<close>,
  \<^verbatim>\<open>ENOENT\<close> and \<^verbatim>\<open>ENAMETOOLONG\<close> fall through to \<^verbatim>\<open>default\<close>.
\<close>

definition errno_status :: "int \<Rightarrow> Status" where
  "errno_status e =
     (if e = EACCES then IOError
      else if e = EBADF \<or> e = EINVAL \<or> e = ENOENT \<or> e = ENAMETOOLONG then UnknownError
      else UnknownError)"

definition setStatus :: "'w libc \<Rightarrow> File \<Rightarrow> 'w \<Rightarrow> Status \<times> File" where
  "setStatus L f w =
     (let s = errno_status (errno L w) in (s, f\<lparr>currentStatus := s\<rparr>))"

text \<open>\<^verbatim>\<open>File::close\<close>\<close>

definition File_close :: "'w libc \<Rightarrow> File \<Rightarrow> 'w \<Rightarrow> Status \<times> File \<times> 'w" where
  "File_close L f w =
     (if Closed = currentStatus f then (currentStatus f, f, w)
      else
        (case handle f of
           Some h \<Rightarrow>
             (case fclose L h w of
                (r, w1) \<Rightarrow>
                  if r \<noteq> 0 then (case setStatus L f w1 of (s, f1) \<Rightarrow> (s, f1, w1))
                  else (Closed, f\<lparr>handle := None, currentStatus := Closed\<rparr>, w1))
         | None \<Rightarrow> (Closed, f\<lparr>handle := None, currentStatus := Closed\<rparr>, w)))"

text \<open>\<^verbatim>\<open>File::~File\<close>: \<^verbatim>\<open>close(); handle = NULL;\<close>\<close>

definition File_destroy :: "'w libc \<Rightarrow> File \<Rightarrow> 'w \<Rightarrow> File \<times> 'w" where
  "File_destroy L f w =
     (case File_close L f w of (s, f1, w1) \<Rightarrow> (f1\<lparr>handle := None\<rparr>, w1))"

text \<open>\<^verbatim>\<open>File::getPosition\<close>: the \<^verbatim>\<open>long\<close> of \<^verbatim>\<open>ftell\<close> is converted to \<^verbatim>\<open>U32\<close>.\<close>

definition File_getPosition :: "'w libc \<Rightarrow> File \<Rightarrow> 'w \<Rightarrow> fatal + (U32 \<times> 'w)" where
  "File_getPosition L f w =
     (if currentStatus f = Closed then Inl (AssertFatal ''File::getPosition: file closed'')
      else
        (case handle f of
           None \<Rightarrow> Inl (AssertFatal ''File::getPosition: invalid file handle'')
         | Some h \<Rightarrow> (case ftell L h w of (r, w1) \<Rightarrow> Inr (word_of_int r, w1))))"

text \<open>\<^verbatim>\<open>File::getSize\<close> (\<^verbatim>\<open>AssertWarn\<close> on a closed file only prints).\<close>

definition File_getSize :: "'w libc \<Rightarrow> File \<Rightarrow> 'w \<Rightarrow> fatal + U32" where
  "File_getSize L f w =
     (case handle f of
        None \<Rightarrow> Inl (AssertFatal ''File::getSize: invalid file handle'')
      | Some h \<Rightarrow>
          if Ok = currentStatus f \<or> EOS = currentStatus f then
            (case fstat_size L h w of
               None \<Rightarrow> Inr 0
             | Some sz \<Rightarrow> Inr (word_of_int sz))
          else Inr 0)"

text \<open>
  The tail of \<^verbatim>\<open>File::setPosition\<close>, from the comparison of \<^verbatim>\<open>finalPos\<close> with
  \<^verbatim>\<open>0xffffffff\<close> on; both branches of the seek end in it.
\<close>

definition setPosition_finish ::
  "'w libc \<Rightarrow> U32 \<Rightarrow> File \<Rightarrow> 'w \<Rightarrow> fatal + (Status \<times> File \<times> 'w)" where
  "setPosition_finish L finalPos f w =
     (if 0xffffffff = finalPos then
        (case setStatus L f w of (s, f1) \<Rightarrow> Inr (s, f1, w))
      else
        (case File_getSize L f w of
           Inl e \<Rightarrow> Inl e
         | Inr sz \<Rightarrow>
             if finalPos \<ge> sz then Inr (EOS, f\<lparr>currentStatus := EOS\<rparr>, w)
             else Inr (Ok, f\<lparr>currentStatus := Ok\<rparr>, w)))"

text \<open>
  \<^verbatim>\<open>File::setPosition\<close>. In the relative branch the assertion compares
  \<^verbatim>\<open>getPosition() + position\<close>, an unsigned sum, with 0; the call of \<^verbatim>\<open>getPosition\<close>
  inside it is a call of \<^verbatim>\<open>ftell\<close>.
\<close>

definition File_setPosition ::
  "'w libc \<Rightarrow> S32 \<Rightarrow> bool \<Rightarrow> File \<Rightarrow> 'w \<Rightarrow> fatal + (Status \<times> File \<times> 'w)" where
  "File_setPosition L position absolutePos f w =
     (if Closed = currentStatus f then Inl (AssertFatal ''File::setPosition: file closed'')
      else
        (case handle f of
           None \<Rightarrow> Inl (AssertFatal ''File::setPosition: invalid file handle'')
         | Some h \<Rightarrow>
             if currentStatus f \<noteq> Ok \<and> currentStatus f \<noteq> EOS then Inr (currentStatus f, f, w)
             else if absolutePos then
               (if \<not> 0 \<le> sint position then
                  Inl (AssertFatal ''File::setPosition: negative absolute position'')
                else
                  (case fseek L h (sint position) SEEK_SET w of
                     (r, w1) \<Rightarrow>
                       (case ftell L h w1 of
                          (p, w2) \<Rightarrow> setPosition_finish L (word_of_int p) f w2)))
             else
               (case File_getPosition L f w of
                  Inl e \<Rightarrow> Inl e
                | Inr (cur, w0) \<Rightarrow>
                    if \<not> (cur + position) \<ge> 0 then
                      Inl (AssertFatal ''File::setPosition: negative relative position'')
                    else
                      (case fseek L h (sint position) SEEK_CUR w0 of
                         (r, w1) \<Rightarrow>
                           (case ftell L h w1 of
                              (p, w2) \<Rightarrow> setPosition_finish L (word_of_int p) f w2)))))"

text \<open>\<^verbatim>\<open>File::open\<close>: the mode string of each \<^verbatim>\<open>fopen\<close>, the capability of each mode.\<close>

fun fopen_mode :: "AccessMode \<Rightarrow> string" where
  "fopen_mode Read = ''rb''"
| "fopen_mode Write = ''wb''"
| "fopen_mode ReadWrite = ''ab+''"
| "fopen_mode WriteAppend = ''ab''"

fun mode_capability :: "AccessMode \<Rightarrow> U32" where
  "mode_capability Read = FileRead"
| "mode_capability Write = FileWrite"
| "mode_capability WriteAppend = FileWrite"
| "mode_capability ReadWrite = FileRead OR FileWrite"

text \<open>The first step of \<^verbatim>\<open>File::open\<close>: \<^verbatim>\<open>if (currentStatus != Closed) close();\<close>\<close>

definition close_if_open :: "'w libc \<Rightarrow> File \<Rightarrow> 'w \<Rightarrow> File \<times> 'w" where
  "close_if_open L f w =
     (if currentStatus f \<noteq> Closed then (case File_close L f w of (s, f1, w1) \<Rightarrow> (f1, w1))
      else (f, w))"

definition File_open ::
  "'w libc \<Rightarrow> string \<Rightarrow> AccessMode \<Rightarrow> File \<Rightarrow> 'w \<Rightarrow> fatal + (Status \<times> File \<times> 'w)" where
  "File_open L filename openMode f w =
     (case close_if_open L f w of
        (f1, w1) \<Rightarrow>
          (case fopen L filename (fopen_mode openMode) w1 of
             (None, w2) \<Rightarrow>
               (case setStatus L (f1\<lparr>handle := None\<rparr>) w2 of (s, f2) \<Rightarrow> Inr (s, f2, w2))
           | (Some h, w2) \<Rightarrow>
               (let f2 = f1\<lparr>handle := Some h, capability := mode_capability openMode,
                            currentStatus := Ok\<rparr>
                in if openMode = ReadWrite then
                     (case File_setPosition L 0 True f2 w2 of
                        Inl e \<Rightarrow> Inl e
                      | Inr (s, f3, w3) \<Rightarrow> Inr (currentStatus f3, f3, w3))
                   else Inr (currentStatus f2, f2, w2))))"

text \<open>
  \<^verbatim>\<open>File::read\<close>. \<open>dst\<close> is the destination buffer (\<open>None\<close> for a null pointer), of
  which \<^verbatim>\<open>fread\<close> overwrites the first bytes; \<open>bytesRead\<close> is \<open>None\<close> for a null
  pointer and \<open>Some v\<close> for a pointer to a variable holding \<open>v\<close>. The result carries
  both as the call leaves them.
\<close>

definition File_read ::
  "'w libc \<Rightarrow> U32 \<Rightarrow> byte list option \<Rightarrow> U32 option \<Rightarrow> File \<Rightarrow> 'w
     \<Rightarrow> fatal + (Status \<times> File \<times> byte list \<times> U32 option \<times> 'w)" where
  "File_read L size' dst bytesRead f w =
     (if Closed = currentStatus f then Inl (AssertFatal ''File::read: file closed'')
      else
        (case handle f of
           None \<Rightarrow> Inl (AssertFatal ''File::read: invalid file handle'')
         | Some h \<Rightarrow>
             (case dst of
                None \<Rightarrow> Inl (AssertFatal ''File::read: NULL destination pointer'')
              | Some d \<Rightarrow>
                  if \<not> hasCapability f FileRead then
                    Inl (AssertFatal ''File::read: file lacks capability'')
                  else if Ok \<noteq> currentStatus f \<or> 0 = size' then
                    Inr (currentStatus f, f, d, bytesRead, w)
                  else
                    (case fread L h (unat size') w of
                       (bs, w1) \<Rightarrow>
                         (let nBytes = (of_nat (length bs) :: U32);
                              f1 = (if nBytes \<noteq> size' then f\<lparr>currentStatus := EOS\<rparr> else f);
                              bytesRead1 = (case bytesRead of
                                              None \<Rightarrow> None
                                            | Some old \<Rightarrow> Some nBytes)
                          in Inr (currentStatus f1, f1, bs @ drop (length bs) d,
                                  bytesRead1, w1))))))"

text \<open>\<^verbatim>\<open>File::write\<close>, with \<open>src\<close> and \<open>bytesWritten\<close> as in \<open>File_read\<close>.\<close>

definition File_write ::
  "'w libc \<Rightarrow> U32 \<Rightarrow> byte list option \<Rightarrow> U32 option \<Rightarrow> File \<Rightarrow> 'w
     \<Rightarrow> fatal + (Status \<times> File \<times> U32 option \<times> 'w)" where
  "File_write L size' src bytesWritten f w =
     (if Closed = currentStatus f then Inl (AssertFatal ''File::write: file closed'')
      else
        (case handle f of
           None \<Rightarrow> Inl (AssertFatal ''File::write: invalid file handle'')
         | Some h \<Rightarrow>
             (case src of
                None \<Rightarrow> Inl (AssertFatal ''File::write: NULL source pointer'')
              | Some s \<Rightarrow>
                  if \<not> hasCapability f FileWrite then
                    Inl (AssertFatal ''File::write: file lacks capability'')
                  else if (Ok \<noteq> currentStatus f \<and> EOS \<noteq> currentStatus f) \<or> 0 = size' then
                    Inr (currentStatus f, f, bytesWritten, w)
                  else
                    (case fwrite L h s (unat size') w of
                       (n, w1) \<Rightarrow>
                         (let nBytes = (of_nat n :: U32);
                              f1 = (if nBytes \<noteq> size' then snd (setStatus L f w1) else f);
                              bytesWritten1 = (case bytesWritten of
                                                 None \<Rightarrow> None
                                               | Some old \<Rightarrow> Some nBytes)
                          in Inr (currentStatus f1, f1, bytesWritten1, w1))))))"

subsection \<open>Path queries\<close>

text \<open>
  A \<^verbatim>\<open>const char*\<close> argument that the source tests against null is a \<open>string option\<close>
  (\<open>None\<close> for the null pointer); \<^verbatim>\<open>!*path\<close> is the test for the empty string.
\<close>

text \<open>\<^verbatim>\<open>Platform::fileDelete\<close>: only the null pointer is tested before \<^verbatim>\<open>remove\<close>.\<close>

definition fileDelete :: "'w libc \<Rightarrow> string option \<Rightarrow> 'w \<Rightarrow> bool \<times> 'w" where
  "fileDelete L name w =
     (case name of
        None \<Rightarrow> (False, w)
      | Some n \<Rightarrow> (case remove L n w of (r, w1) \<Rightarrow> (r = 0, w1)))"

text \<open>\<^verbatim>\<open>dFileTouch\<close>\<close>

definition dFileTouch :: "'w libc \<Rightarrow> string option \<Rightarrow> 'w \<Rightarrow> bool \<times> 'w" where
  "dFileTouch L path w =
     (case path of
        None \<Rightarrow> (False, w)
      | Some p \<Rightarrow>
          if p = [] then (False, w)
          else (case utimes L p w of (r, w1) \<Rightarrow> (r = 0, w1)))"

text \<open>
  \<^verbatim>\<open>Platform::getFileTimes\<close>: the two output pointers may be null; the result carries
  what they point to after the call.
\<close>

definition getFileTimes ::
  "'w libc \<Rightarrow> string option \<Rightarrow> int option \<Rightarrow> int option \<Rightarrow> 'w
     \<Rightarrow> bool \<times> int option \<times> int option" where
  "getFileTimes L path createTime modifyTime w =
     (case path of
        None \<Rightarrow> (False, createTime, modifyTime)
      | Some p \<Rightarrow>
          if p = [] then (False, createTime, modifyTime)
          else
            (case stat L p w of
               None \<Rightarrow> (False, createTime, modifyTime)
             | Some sd \<Rightarrow>
                 (True,
                  (case createTime of None \<Rightarrow> None | Some old \<Rightarrow> Some (st_ctime sd)),
                  (case modifyTime of None \<Rightarrow> None | Some old \<Rightarrow> Some (st_mtime sd)))))"

text \<open>\<^verbatim>\<open>Platform::isFile\<close>\<close>

definition isFile :: "'w libc \<Rightarrow> string option \<Rightarrow> 'w \<Rightarrow> bool" where
  "isFile L path w =
     (case path of
        None \<Rightarrow> False
      | Some p \<Rightarrow>
          if p = [] then False
          else
            (case stat L p w of
               None \<Rightarrow> False
             | Some sd \<Rightarrow> if st_mode_fmt sd = S_IFREG then True else False))"

text \<open>\<^verbatim>\<open>Platform::isDirectory\<close>\<close>

definition isDirectory :: "'w libc \<Rightarrow> string option \<Rightarrow> 'w \<Rightarrow> bool" where
  "isDirectory L path w =
     (case path of
        None \<Rightarrow> False
      | Some p \<Rightarrow>
          if p = [] then False
          else
            (case stat L p w of
               None \<Rightarrow> False
             | Some sd \<Rightarrow> if st_mode_fmt sd = S_IFDIR then True else False))"

text \<open>\<^verbatim>\<open>Platform::getFileSize\<close>: the size is cast to \<^verbatim>\<open>S32\<close>.\<close>

definition getFileSize :: "'w libc \<Rightarrow> string option \<Rightarrow> 'w \<Rightarrow> S32" where
  "getFileSize L pFilePath w =
     (case pFilePath of
        None \<Rightarrow> 0
      | Some p \<Rightarrow>
          if p = [] then 0
          else
            (case stat L p w of
               None \<Rightarrow> 0
             | Some sd \<Rightarrow> word_of_int (st_size sd)))"

text \<open>
  Modelled from the spec: \<^verbatim>\<open>dStrcpyl\<close> belongs to the engine's string library, which is
  not among the sources, and the spec does not describe it. Its call in
  \<^verbatim>\<open>isSubDirectory\<close> ends the argument list with \<^verbatim>\<open>NULL\<close> and passes the buffer size: it
  copies its string arguments one after the other into the buffer, up to the first null
  argument, keeping at most \<open>dstSize - 1\<close> characters.
\<close>

fun dStrcpyl_args :: "string option list \<Rightarrow> string" where
  "dStrcpyl_args [] = []"
| "dStrcpyl_args (None # rest) = []"
| "dStrcpyl_args (Some s # rest) = s @ dStrcpyl_args rest"

definition dStrcpyl :: "nat \<Rightarrow> string option list \<Rightarrow> string" where
  "dStrcpyl dstSize args = take (dstSize - 1) (dStrcpyl_args args)"

text \<open>\<^verbatim>\<open>Platform::isSubDirectory\<close>: no test of either argument.\<close>

definition isSubDirectory :: "'w libc \<Rightarrow> string option \<Rightarrow> string option \<Rightarrow> 'w \<Rightarrow> bool" where
  "isSubDirectory L pathParent pathSub w =
     (let fullpath = dStrcpyl MAX_MAC_PATH_LONG [pathParent, Some ''/'', pathSub, None]
      in isDirectory L (Some fullpath) w)"

subsection \<open>createPath\<close>

text \<open>\<^verbatim>\<open>dStrrchr\<close>: the index of the last occurrence of a character, \<open>None\<close> for null.\<close>

fun dStrrchr :: "string \<Rightarrow> char \<Rightarrow> nat option" where
  "dStrrchr [] c = None"
| "dStrrchr (x # xs) c =
     (case dStrrchr xs c of
        Some i \<Rightarrow> Some (Suc i)
      | None \<Rightarrow> if x = c then Some 0 else None)"

lemma dStrrchr_Some: "dStrrchr s c = Some i \<Longrightarrow> i < length s \<and> s ! i = c"
  by (induction s arbitrary: i) (auto split: option.splits if_splits)

lemma dStrrchr_last: "dStrrchr s c = Some i \<Longrightarrow> s \<noteq> [] \<Longrightarrow> last s \<noteq> c \<Longrightarrow> Suc i < length s"
proof -
  assume a: "dStrrchr s c = Some i" and ne: "s \<noteq> []" and l: "last s \<noteq> c"
  from a have b: "i < length s" and e: "s ! i = c" using dStrrchr_Some by blast+
  have "last s = s ! (length s - 1)" using ne by (simp add: last_conv_nth)
  with l e have "i \<noteq> length s - 1" by auto
  with b show ?thesis by arith
qed

text \<open>
  \<^verbatim>\<open>Platform::createPath\<close>. \<^verbatim>\<open>parent\<close> is a copy of \<^verbatim>\<open>file\<close>, and \<^verbatim>\<open>parent[len - 2]\<close> its
  last character; for the empty string \<^verbatim>\<open>len\<close> is 1 and \<^verbatim>\<open>len - 2\<close>, an unsigned value,
  indexes far outside the buffer: the result \<open>None\<close> stands for that undefined read.
  Cutting the trailing slash leaves \<open>butlast file\<close>, and \<^verbatim>\<open>slash[1] = '\0'\<close> keeps the
  characters of \<^verbatim>\<open>parent\<close> up to and including the last slash.
\<close>

function createPath :: "'w libc \<Rightarrow> string \<Rightarrow> 'w \<Rightarrow> (bool \<times> 'w) option" where
  "createPath L file w =
     (if stat L file w \<noteq> None then Some (True, w)
      else if file = [] then None
      else
        (let isDirPath = (last file = CHR ''/'');
             parent = (if isDirPath then butlast file else file);
             slash = dStrrchr parent CHR ''/'';
             made = (case slash of
                       None \<Rightarrow> Some (True, w)
                     | Some i \<Rightarrow>
                         if i \<noteq> 0 then createPath L (take (Suc i) parent) w
                         else Some (True, w))
         in case made of
              None \<Rightarrow> None
            | Some (ok, w1) \<Rightarrow>
                if \<not> ok then Some (False, w1)
                else if isDirPath then
                  (case mkdir L file w1 of
                     (r, w2) \<Rightarrow> if r \<noteq> 0 then Some (False, w2) else Some (True, w2))
                else Some (True, w1)))"
  by pat_completeness auto
termination
proof (relation "measure (\<lambda>(L, p, w). length p)")
  show "wf (measure (\<lambda>(L, p, w). length p))" by simp
next
  fix L :: "'w libc" and fl :: string and w :: 'w and x xa xb x2
  assume ne: "fl \<noteq> []"
    and x: "x = (last fl = CHR ''/'')"
    and xa: "xa = (if x then butlast fl else fl)"
    and xb: "xb = dStrrchr xa CHR ''/''"
    and s: "xb = Some x2"
  from xb s have r: "dStrrchr xa CHR ''/'' = Some x2" by simp
  have "Suc x2 < length fl"
  proof (cases x)
    case True
    with xa have "xa = butlast fl" by simp
    with r have "x2 < length (butlast fl)" using dStrrchr_Some by blast
    then show ?thesis by simp
  next
    case False
    with xa x have "xa = fl" and "last fl \<noteq> CHR ''/''" by simp_all
    with r ne show ?thesis using dStrrchr_last by blast
  qed
  then show "((L, take (Suc x2) xa, w), (L, fl, w)) \<in> measure (\<lambda>(L, p, w). length p)"
    by simp
qed

declare createPath.simps [simp del]

subsection \<open>Directory walks\<close>

text \<open>
  Modelled from the spec: \<^verbatim>\<open>Platform::isExcludedDirectory\<close> is defined with the
  resource manager, not among the sources. The spec describes an externally owned
  exclusion list, queried by name equality; the list is a parameter of the walks, as it
  stands after \<^verbatim>\<open>ResourceManager->initExcludedDirectories()\<close>.
\<close>

definition isExcludedDirectory :: "string list \<Rightarrow> string \<Rightarrow> bool" where
  "isExcludedDirectory ex name \<longleftrightarrow> name \<in> set ex"

text \<open>\<^verbatim>\<open>isGoodDirectory\<close>\<close>

definition isGoodDirectory :: "string list \<Rightarrow> dirent \<Rightarrow> bool" where
  "isGoodDirectory ex entry \<longleftrightarrow>
     d_type entry = DT_DIR \<and> d_name entry \<noteq> ''.'' \<and> d_name entry \<noteq> ''..''
     \<and> \<not> isExcludedDirectory ex (d_name entry)"

text \<open>
  \<^verbatim>\<open>recurseDumpDirectories\<close>, and its \<^verbatim>\<open>while\<close> loop over the entries that \<^verbatim>\<open>readdir\<close>
  returns. The buffers \<^verbatim>\<open>pathbuf\<close>, \<^verbatim>\<open>newpath\<close> and \<^verbatim>\<open>fullpath\<close> have the size of what
  \<^verbatim>\<open>dSprintf\<close> writes, so each is the plain concatenation. The result is the return
  value and the vector. \<^verbatim>\<open>depth - 1\<close> is computed in 32 bits; the recursion stops at
  depth 0, which \<open>-1\<close> reaches after \<open>2^32 - 1\<close> steps.
\<close>

function recurseDumpDirectories ::
    "'w libc \<Rightarrow> string list \<Rightarrow> 'w \<Rightarrow> string \<Rightarrow> string \<Rightarrow> string list \<Rightarrow> S32 \<Rightarrow> bool
       \<Rightarrow> bool \<times> string list"
  and dumpDirectories_loop ::
    "'w libc \<Rightarrow> string list \<Rightarrow> 'w \<Rightarrow> string \<Rightarrow> string \<Rightarrow> dirent list \<Rightarrow> string list \<Rightarrow> S32
       \<Rightarrow> bool \<Rightarrow> string list"
  where
  "recurseDumpDirectories L ex w basePath path directoryVector depth noBasePath =
     (case opendir L (basePath @ ''/'' @ path) w of
        None \<Rightarrow> (False, directoryVector)
      | Some entries \<Rightarrow>
          (True, dumpDirectories_loop L ex w basePath path entries directoryVector depth
                   noBasePath))"
| "dumpDirectories_loop L ex w basePath path [] directoryVector depth noBasePath =
     directoryVector"
| "dumpDirectories_loop L ex w basePath path (entry # rest) directoryVector depth noBasePath =
     (if \<not> isGoodDirectory ex entry then
        dumpDirectories_loop L ex w basePath path rest directoryVector depth noBasePath
      else
        (let newpath = (if length path > 0 then path @ ''/'' @ d_name entry
                        else d_name entry);
             pushed = (if noBasePath then directoryVector @ [newpath]
                       else directoryVector @ [basePath @ ''/'' @ newpath]);
             after = (if depth \<noteq> 0 then
                        snd (recurseDumpDirectories L ex w basePath newpath pushed (depth - 1)
                               noBasePath)
                      else pushed)
         in dumpDirectories_loop L ex w basePath path rest after depth noBasePath))"
  by pat_completeness auto
termination
  by (relation "measures
        [\<lambda>x. case x of
                Inl (L, ex, w, basePath, path, vec, depth, nbp) \<Rightarrow> unat depth
              | Inr (L, ex, w, basePath, path, entries, vec, depth, nbp) \<Rightarrow> unat depth,
         \<lambda>x. case x of Inl a \<Rightarrow> 1 | Inr b \<Rightarrow> 0,
         \<lambda>x. case x of
                Inl a \<Rightarrow> 0
              | Inr (L, ex, w, basePath, path, entries, vec, depth, nbp) \<Rightarrow> length entries]")
     (auto simp: measure_unat)

declare recurseDumpDirectories.simps [simp del]

text \<open>
  \<^verbatim>\<open>Platform::dumpDirectories\<close>. \<^verbatim>\<open>newpath\<close> has \<^verbatim>\<open>len = dStrlen(path) + 1\<close> characters,
  so \<^verbatim>\<open>newpath[len - 1]\<close> is the terminating zero: \<open>c_str_at\<close> reads a C string at an index
  up to its terminator.
\<close>

definition c_str_at :: "string \<Rightarrow> nat \<Rightarrow> char" where
  "c_str_at s i = (if i < length s then s ! i else CHR 0x00)"

definition dumpDirectories ::
  "'w libc \<Rightarrow> string list \<Rightarrow> 'w \<Rightarrow> string \<Rightarrow> string list \<Rightarrow> S32 \<Rightarrow> bool
     \<Rightarrow> bool \<times> string list" where
  "dumpDirectories L ex w path directoryVector depth noBasePath =
     (let len = length path + 1;
          newpath = (if c_str_at path (len - 1) = CHR ''/'' then take (len - 1) path
                     else path);
          pushed = (if \<not> noBasePath then directoryVector @ [newpath] else directoryVector)
      in recurseDumpDirectories L ex w newpath [] pushed depth noBasePath)"

text \<open>\<^verbatim>\<open>Platform::FileInfo\<close>\<close>

record FileInfo =
  pFullPath :: string
  pFileName :: string
  fileSize :: U32

text \<open>
  \<^verbatim>\<open>recurseDumpPath\<close>. On this platform \<^verbatim>\<open>len\<close> is the constant 0, so \<^verbatim>\<open>pathbuf\<close> is an
  array of no elements into which \<^verbatim>\<open>dSprintf\<close> writes nothing: what the later reads of
  \<^verbatim>\<open>pathbuf\<close> find is not determined by the program. The parameter \<open>pathbuf\<close> of the
  model gives that string for each directory and entry, and every theorem holds for
  all its values.
\<close>

function recurseDumpPath ::
    "'w libc \<Rightarrow> string list \<Rightarrow> (string \<Rightarrow> dirent \<Rightarrow> string) \<Rightarrow> 'w \<Rightarrow> string \<Rightarrow> FileInfo list
       \<Rightarrow> U32 \<Rightarrow> bool \<times> FileInfo list"
  and dumpPath_loop ::
    "'w libc \<Rightarrow> string list \<Rightarrow> (string \<Rightarrow> dirent \<Rightarrow> string) \<Rightarrow> 'w \<Rightarrow> string \<Rightarrow> dirent list
       \<Rightarrow> FileInfo list \<Rightarrow> U32 \<Rightarrow> FileInfo list"
  where
  "recurseDumpPath L ex pathbuf w curPath fileVector depth =
     (case opendir L curPath w of
        None \<Rightarrow> (False, fileVector)
      | Some entries \<Rightarrow>
          (True, dumpPath_loop L ex pathbuf w curPath entries fileVector depth))"
| "dumpPath_loop L ex pathbuf w curPath [] fileVector depth = fileVector"
| "dumpPath_loop L ex pathbuf w curPath (entry # rest) fileVector depth =
     (if d_type entry = DT_DIR then
        (if depth = 0 then dumpPath_loop L ex pathbuf w curPath rest fileVector depth
         else if \<not> isGoodDirectory ex entry then
           dumpPath_loop L ex pathbuf w curPath rest fileVector depth
         else
           dumpPath_loop L ex pathbuf w curPath rest
             (snd (recurseDumpPath L ex pathbuf w (pathbuf curPath entry) fileVector
                     (depth - 1)))
             depth)
      else
        (let size' = getFileSize L (Some (pathbuf curPath entry)) w;
             rInfo = \<lparr>pFullPath = curPath, pFileName = d_name entry, fileSize = size'\<rparr>
         in dumpPath_loop L ex pathbuf w curPath rest (fileVector @ [rInfo]) depth))"
  by pat_completeness auto
termination
  by (relation "measures
        [\<lambda>x. case x of
                Inl (L, ex, pb, w, curPath, vec, depth) \<Rightarrow> unat depth
              | Inr (L, ex, pb, w, curPath, entries, vec, depth) \<Rightarrow> unat depth,
         \<lambda>x. case x of Inl a \<Rightarrow> 1 | Inr b \<Rightarrow> 0,
         \<lambda>x. case x of
                Inl a \<Rightarrow> 0
              | Inr (L, ex, pb, w, curPath, entries, vec, depth) \<Rightarrow> length entries]")
     (auto simp: measure_unat)

declare recurseDumpPath.simps [simp del]

text \<open>
  \<^verbatim>\<open>Platform::dumpPath\<close>. \<^verbatim>\<open>newpath[len - 2]\<close> is the last character of the path; for
  the empty path it is a read before the buffer, the result \<open>None\<close>. The \<^verbatim>\<open>S32\<close> depth
  becomes the \<^verbatim>\<open>U32\<close> parameter of \<^verbatim>\<open>recurseDumpPath\<close> with the same bits.
\<close>

definition dumpPath ::
  "'w libc \<Rightarrow> string list \<Rightarrow> (string \<Rightarrow> dirent \<Rightarrow> string) \<Rightarrow> 'w \<Rightarrow> string \<Rightarrow> FileInfo list
     \<Rightarrow> S32 \<Rightarrow> (bool \<times> FileInfo list) option" where
  "dumpPath L ex pathbuf w path fileVector depth =
     (if path = [] then None
      else
        (let newpath = (if last path = CHR ''/'' then butlast path else path)
         in Some (recurseDumpPath L ex pathbuf w newpath fileVector depth)))"

subsection \<open>A C library in memory\<close>

text \<open>
  One instance of the parameter, on which the operations can be run: a file system
  held in memory. Regular files are kept by path with their bytes, directories by path
  without a trailing slash (a relative path with no slash lies in the working
  directory, which always exists), \<open>ram_locked\<close> lists the paths that answer
  \<^verbatim>\<open>EACCES\<close>, and an open stream has the path of its file, its offset and whether it
  appends. It is used for the concrete runs only; no general theorem depends on it.
\<close>

record ram =
  ram_errno :: int
  ram_files :: "(string \<times> byte list) list"
  ram_dirs :: "string list"
  ram_locked :: "string list"
  ram_streams :: "(FILE \<times> string \<times> nat \<times> bool) list"

definition canon :: "string \<Rightarrow> string" where
  "canon p = rev (dropWhile (\<lambda>c. c = CHR ''/'') (rev p))"

definition dirname :: "string \<Rightarrow> string" where
  "dirname p = rev (drop 1 (dropWhile (\<lambda>c. c \<noteq> CHR ''/'') (rev p)))"

definition basename :: "string \<Rightarrow> string" where
  "basename p = rev (takeWhile (\<lambda>c. c \<noteq> CHR ''/'') (rev p))"

definition ram_fail :: "int \<Rightarrow> ram \<Rightarrow> ram" where
  "ram_fail e w = w\<lparr>ram_errno := e\<rparr>"

definition ram_put :: "string \<Rightarrow> byte list \<Rightarrow> ram \<Rightarrow> ram" where
  "ram_put p bs w = w\<lparr>ram_files := (p, bs) # filter (\<lambda>x. fst x \<noteq> p) (ram_files w)\<rparr>"

definition ram_next :: "ram \<Rightarrow> FILE" where
  "ram_next w = Suc (fold max (map fst (ram_streams w)) 0)"

definition ram_stream :: "FILE \<Rightarrow> string \<Rightarrow> nat \<Rightarrow> bool \<Rightarrow> ram \<Rightarrow> ram" where
  "ram_stream h p pos app w =
     w\<lparr>ram_streams := (h, p, pos, app) # filter (\<lambda>x. fst x \<noteq> h) (ram_streams w)\<rparr>"

definition ram_fopen :: "string \<Rightarrow> string \<Rightarrow> ram \<Rightarrow> FILE option \<times> ram" where
  "ram_fopen p m w =
     (if p \<in> set (ram_locked w) then (None, ram_fail EACCES w)
      else if p = [] \<or> canon p \<in> set (ram_dirs w)
              \<or> (dirname p \<noteq> [] \<and> dirname p \<notin> set (ram_dirs w)) then
        (None, ram_fail ENOENT w)
      else if m = ''rb'' then
        (case map_of (ram_files w) p of
           None \<Rightarrow> (None, ram_fail ENOENT w)
         | Some bs \<Rightarrow> (Some (ram_next w), ram_stream (ram_next w) p 0 False w))
      else if m = ''wb'' then
        (Some (ram_next w), ram_stream (ram_next w) p 0 False (ram_put p [] w))
      else
        (case map_of (ram_files w) p of
           None \<Rightarrow> (Some (ram_next w), ram_stream (ram_next w) p 0 True (ram_put p [] w))
         | Some bs \<Rightarrow> (Some (ram_next w), ram_stream (ram_next w) p 0 True w)))"

definition ram_fclose :: "FILE \<Rightarrow> ram \<Rightarrow> int \<times> ram" where
  "ram_fclose h w =
     (case map_of (ram_streams w) h of
        None \<Rightarrow> (- 1, ram_fail EBADF w)
      | Some s \<Rightarrow> (0, w\<lparr>ram_streams := filter (\<lambda>x. fst x \<noteq> h) (ram_streams w)\<rparr>))"

definition ram_fseek :: "FILE \<Rightarrow> int \<Rightarrow> whence \<Rightarrow> ram \<Rightarrow> int \<times> ram" where
  "ram_fseek h off wh w =
     (case map_of (ram_streams w) h of
        None \<Rightarrow> (- 1, ram_fail EBADF w)
      | Some (p, pos, app) \<Rightarrow>
          (let target = (case wh of SEEK_SET \<Rightarrow> off | SEEK_CUR \<Rightarrow> int pos + off)
           in if target < 0 then (- 1, ram_fail EINVAL w)
              else (0, ram_stream h p (nat target) app w)))"

definition ram_ftell :: "FILE \<Rightarrow> ram \<Rightarrow> int \<times> ram" where
  "ram_ftell h w =
     (case map_of (ram_streams w) h of
        None \<Rightarrow> (- 1, ram_fail EBADF w)
      | Some (p, pos, app) \<Rightarrow> (int pos, w))"

definition ram_contents :: "string \<Rightarrow> ram \<Rightarrow> byte list" where
  "ram_contents p w = (case map_of (ram_files w) p of None \<Rightarrow> [] | Some bs \<Rightarrow> bs)"

definition ram_fread :: "FILE \<Rightarrow> nat \<Rightarrow> ram \<Rightarrow> byte list \<times> ram" where
  "ram_fread h n w =
     (case map_of (ram_streams w) h of
        None \<Rightarrow> ([], ram_fail EBADF w)
      | Some (p, pos, app) \<Rightarrow>
          (let bs = take n (drop pos (ram_contents p w))
           in (bs, ram_stream h p (pos + length bs) app w)))"

definition ram_fwrite :: "FILE \<Rightarrow> byte list \<Rightarrow> nat \<Rightarrow> ram \<Rightarrow> nat \<times> ram" where
  "ram_fwrite h src n w =
     (case map_of (ram_streams w) h of
        None \<Rightarrow> (0, ram_fail EBADF w)
      | Some (p, pos, app) \<Rightarrow>
          (let old = ram_contents p w;
               at = (if app then length old else pos);
               padded = old @ replicate (at - length old) 0;
               new = take at padded @ take n src @ drop (at + n) padded
           in (n, ram_stream h p (at + n) app (ram_put p new w))))"

definition ram_fstat_size :: "FILE \<Rightarrow> ram \<Rightarrow> int option" where
  "ram_fstat_size h w =
     (case map_of (ram_streams w) h of
        None \<Rightarrow> None
      | Some (p, pos, app) \<Rightarrow> Some (int (length (ram_contents p w))))"

definition ram_stat :: "string \<Rightarrow> ram \<Rightarrow> stat_data option" where
  "ram_stat p w =
     (if p \<noteq> [] \<and> canon p \<in> set (ram_dirs w) then
        Some \<lparr>st_mode_fmt = S_IFDIR, st_size = 0, st_ctime = 0, st_mtime = 0\<rparr>
      else
        (case map_of (ram_files w) p of
           None \<Rightarrow> None
         | Some bs \<Rightarrow>
             Some \<lparr>st_mode_fmt = S_IFREG, st_size = int (length bs), st_ctime = 0,
                   st_mtime = 0\<rparr>))"

definition ram_remove :: "string \<Rightarrow> ram \<Rightarrow> int \<times> ram" where
  "ram_remove p w =
     (case map_of (ram_files w) p of
        None \<Rightarrow> (- 1, ram_fail ENOENT w)
      | Some bs \<Rightarrow> (0, w\<lparr>ram_files := filter (\<lambda>x. fst x \<noteq> p) (ram_files w)\<rparr>))"

definition ram_utimes :: "string \<Rightarrow> ram \<Rightarrow> int \<times> ram" where
  "ram_utimes p w = (if ram_stat p w = None then (- 1, ram_fail ENOENT w) else (0, w))"

definition ram_mkdir :: "string \<Rightarrow> ram \<Rightarrow> int \<times> ram" where
  "ram_mkdir p w =
     (let q = canon p
      in if q = [] \<or> q \<in> set (ram_dirs w) \<or> map_of (ram_files w) q \<noteq> None then
           (- 1, ram_fail EEXIST w)
         else if dirname q \<noteq> [] \<and> dirname q \<notin> set (ram_dirs w) then
           (- 1, ram_fail ENOENT w)
         else (0, w\<lparr>ram_dirs := ram_dirs w @ [q]\<rparr>))"

definition ram_opendir :: "string \<Rightarrow> ram \<Rightarrow> dirent list option" where
  "ram_opendir p w =
     (let q = canon p
      in if q \<notin> set (ram_dirs w) \<or> q \<in> set (ram_locked w) then None
         else
           Some ([\<lparr>d_name = ''.'', d_type = DT_DIR\<rparr>, \<lparr>d_name = ''..'', d_type = DT_DIR\<rparr>]
                 @ map (\<lambda>d. \<lparr>d_name = basename d, d_type = DT_DIR\<rparr>)
                     (filter (\<lambda>d. dirname d = q) (ram_dirs w))
                 @ map (\<lambda>x. \<lparr>d_name = basename (fst x), d_type = DT_REG\<rparr>)
                     (filter (\<lambda>x. dirname (fst x) = q) (ram_files w))))"

definition ram_libc :: "ram libc" where
  "ram_libc =
     \<lparr>errno = ram_errno, fopen = ram_fopen, fclose = ram_fclose, fseek = ram_fseek,
      ftell = ram_ftell, fread = ram_fread, fwrite = ram_fwrite,
      fstat_size = ram_fstat_size, stat = ram_stat, remove = ram_remove,
      utimes = ram_utimes, mkdir = ram_mkdir, opendir = ram_opendir\<rparr>"

text \<open>An empty file system, and one with a few files and directories.\<close>

definition ram_empty :: ram where
  "ram_empty =
     \<lparr>ram_errno = 0, ram_files = [], ram_dirs = [], ram_locked = [], ram_streams = []\<rparr>"

definition ram_game :: ram where
  "ram_game =
     \<lparr>ram_errno = 0,
      ram_files = [(''save.dat'', [1, 2, 3, 4, 5]), (''empty.dat'', []),
                   (''secret.dat'', [9]), (''game/main.cs'', [7, 7])],
      ram_dirs = [''game'', ''game/art'', ''game/.svn'', ''game/art/tiles'',
                  ''game/.svn/tmp'', ''game/vault'', ''game/vault/inner''],
      ram_locked = [''secret.dat'', ''game/vault''],
      ram_streams = []\<rparr>"

text \<open>
  Handles on that file system: \<open>file_save\<close> is the handle that \<^verbatim>\<open>open("save.dat", Read)\<close>
  returns on \<open>ram_game\<close>, with its stream at offset \<open>pos\<close> in \<open>ram_save_at pos\<close>;
  \<open>file_out\<close> the one of \<^verbatim>\<open>open("out.dat", Write)\<close>.
\<close>

definition file_save :: File where
  "file_save = \<lparr>currentStatus = Ok, capability = FileRead, handle = Some 1\<rparr>"

definition ram_save_at :: "nat \<Rightarrow> ram" where
  "ram_save_at pos = ram_game\<lparr>ram_streams := [(1, ''save.dat'', pos, False)]\<rparr>"

definition file_out :: File where
  "file_out = \<lparr>currentStatus = Ok, capability = FileWrite, handle = Some 1\<rparr>"

definition ram_out :: ram where
  "ram_out = ram_game\<lparr>ram_files := (''out.dat'', []) # ram_files ram_game,
                      ram_streams := [(1, ''out.dat'', 0, False)]\<rparr>"

text \<open>A C library whose device is full: \<^verbatim>\<open>fwrite\<close> stores at most two bytes (\<^verbatim>\<open>ENOSPC\<close>).\<close>

definition ram_libc_full :: "ram libc" where
  "ram_libc_full =
     ram_libc\<lparr>fwrite := \<lambda>h src n w.
                 if n \<le> 2 then ram_fwrite h src n w
                 else (2, ram_fail 28 (snd (ram_fwrite h src 2 w)))\<rparr>"

text \<open>A C library whose \<^verbatim>\<open>fclose\<close> releases the stream and reports \<^verbatim>\<open>EIO\<close>.\<close>

definition ram_libc_eio :: "ram libc" where
  "ram_libc_eio = ram_libc\<lparr>fclose := \<lambda>h w. (- 1, ram_fail 5 (snd (ram_fclose h w)))\<rparr>"

text \<open>
  A C library whose only directory is the root \<^verbatim>\<open>/\<close>: \<^verbatim>\<open>opendir\<close> opens that path and
  no other, the empty path included.
\<close>

definition ram_libc_slash :: "ram libc" where
  "ram_libc_slash =
     ram_libc\<lparr>opendir := \<lambda>p w.
                 if p = ''/'' then
                   Some [\<lparr>d_name = ''.'', d_type = DT_DIR\<rparr>, \<lparr>d_name = ''..'', d_type = DT_DIR\<rparr>]
                 else None\<rparr>"

text \<open>
  A value for the contents of the zero-length \<^verbatim>\<open>pathbuf\<close> of \<open>recurseDumpPath\<close>: the
  empty string for every directory and entry.
\<close>

definition empty_pathbuf :: "string \<Rightarrow> dirent \<Rightarrow> string" where
  "empty_pathbuf curPath entry = []"

subsection \<open>Notions used in the statements\<close>

text \<open>The status a call returned, if it returned.\<close>

definition returned_status :: "fatal + (Status \<times> 'a) \<Rightarrow> Status option" where
  "returned_status r = (case r of Inl e \<Rightarrow> None | Inr (s, rest) \<Rightarrow> Some s)"

text \<open>The two error values of the status.\<close>

definition is_error :: "Status \<Rightarrow> bool" where
  "is_error s \<longleftrightarrow> s = IOError \<or> s = UnknownError"

text \<open>A closed handle holds no stream: true of a new handle and kept by every operation.\<close>

definition File_inv :: "File \<Rightarrow> bool" where
  "File_inv f \<longleftrightarrow> (currentStatus f = Closed \<longrightarrow> handle f = None)"

text \<open>
  The directory prefixes of a path: every prefix that ends in a separator, the leading
  separator of an absolute path apart. For \<^verbatim>\<open>a/b/c/\<close> they are \<^verbatim>\<open>a/\<close>, \<^verbatim>\<open>a/b/\<close> and
  \<^verbatim>\<open>a/b/c/\<close>; for \<^verbatim>\<open>a/b/c.txt\<close> they are \<^verbatim>\<open>a/\<close> and \<^verbatim>\<open>a/b/\<close>.
\<close>

definition ancestors :: "string \<Rightarrow> string list" where
  "ancestors p = filter (\<lambda>q. 1 < length q \<and> last q = CHR ''/'') (prefixes p)"

text \<open>
  What \<open>createPath\<close> needs of the file system: a directory that \<^verbatim>\<open>mkdir\<close> has made is
  found by \<^verbatim>\<open>stat\<close>; \<^verbatim>\<open>mkdir\<close> removes nothing that \<^verbatim>\<open>stat\<close> finds; and in the world of
  the call, what \<^verbatim>\<open>stat\<close> finds lies in directories that \<^verbatim>\<open>stat\<close> finds.
\<close>

definition mkdir_makes :: "'w libc \<Rightarrow> bool" where
  "mkdir_makes L \<longleftrightarrow> (\<forall>p v v'. mkdir L p v = (0, v') \<longrightarrow> stat L p v' \<noteq> None)"

definition mkdir_keeps :: "'w libc \<Rightarrow> bool" where
  "mkdir_keeps L \<longleftrightarrow>
     (\<forall>p q v. stat L q v \<noteq> None \<longrightarrow> stat L q (snd (mkdir L p v)) \<noteq> None)"

definition ancestors_exist :: "'w libc \<Rightarrow> 'w \<Rightarrow> bool" where
  "ancestors_exist L w \<longleftrightarrow>
     (\<forall>p q. stat L p w \<noteq> None \<longrightarrow> q \<in> set (ancestors p) \<longrightarrow> stat L q w \<noteq> None)"

text \<open>The empty file system after the directories \<^verbatim>\<open>a\<close>, \<^verbatim>\<open>a/b\<close> and \<^verbatim>\<open>a/b/c\<close> were made.\<close>

definition ram_abc :: ram where
  "ram_abc = ram_empty\<lparr>ram_dirs := [''a'', ''a/b'', ''a/b/c'']\<rparr>"

text \<open>
  The directories a walk is to list, said without the vector and the loop. The path of
  an entry below \<open>path\<close>, relative to the root of the walk; the entries of a directory
  that \<open>isGoodDirectory\<close> accepts (none if it does not open); the relative paths of the
  directories found below \<open>path\<close> down to \<open>n\<close> further levels, each directory before its
  contents, in the order of the listings; and the form in which a relative path is
  appended.
\<close>

definition child_path :: "string \<Rightarrow> string \<Rightarrow> string" where
  "child_path path name = (if path = [] then name else path @ ''/'' @ name)"

definition good_entries ::
  "'w libc \<Rightarrow> string list \<Rightarrow> 'w \<Rightarrow> string \<Rightarrow> string \<Rightarrow> dirent list" where
  "good_entries L ex w basePath path =
     filter (isGoodDirectory ex)
       (case opendir L (basePath @ ''/'' @ path) w of None \<Rightarrow> [] | Some entries \<Rightarrow> entries)"

fun nested_dirs ::
  "'w libc \<Rightarrow> string list \<Rightarrow> 'w \<Rightarrow> string \<Rightarrow> nat \<Rightarrow> string \<Rightarrow> string list" where
  "nested_dirs L ex w basePath 0 path =
     map (\<lambda>e. child_path path (d_name e)) (good_entries L ex w basePath path)"
| "nested_dirs L ex w basePath (Suc n) path =
     concat (map (\<lambda>e. child_path path (d_name e)
                       # nested_dirs L ex w basePath n (child_path path (d_name e)))
               (good_entries L ex w basePath path))"

definition listed_as :: "bool \<Rightarrow> string \<Rightarrow> string \<Rightarrow> string" where
  "listed_as noBasePath basePath p = (if noBasePath then p else basePath @ ''/'' @ p)"

text \<open>
  \<open>below L ex w basePath path k p\<close>: the relative path \<open>p\<close> is a directory \<open>k\<close> levels
  below the entries of \<open>path\<close>, reached through accepted entries of directories that
  open.
\<close>

inductive below ::
  "'w libc \<Rightarrow> string list \<Rightarrow> 'w \<Rightarrow> string \<Rightarrow> string \<Rightarrow> nat \<Rightarrow> string \<Rightarrow> bool"
  for L ex w basePath where
  below_entry: "e \<in> set (good_entries L ex w basePath path)
      \<Longrightarrow> below L ex w basePath path 0 (child_path path (d_name e))"
| below_deeper: "e \<in> set (good_entries L ex w basePath path)
      \<Longrightarrow> below L ex w basePath (child_path path (d_name e)) k p
      \<Longrightarrow> below L ex w basePath path (Suc k) p"

text \<open>What one accepted entry adds to the vector at depth \<open>depth\<close>.\<close>

definition level_of ::
  "'w libc \<Rightarrow> string list \<Rightarrow> 'w \<Rightarrow> string \<Rightarrow> S32 \<Rightarrow> string \<Rightarrow> dirent \<Rightarrow> string list" where
  "level_of L ex w basePath depth path e =
     child_path path (d_name e)
       # (if depth = 0 then []
          else nested_dirs L ex w basePath (unat (depth - 1)) (child_path path (d_name e)))"

section \<open>Properties\<close>

lemmas ram_defs = ram_libc_def ram_game_def ram_empty_def ram_fopen_def ram_fclose_def
  ram_fseek_def ram_ftell_def ram_fread_def ram_fwrite_def ram_fstat_size_def ram_stat_def
  ram_remove_def ram_utimes_def ram_mkdir_def ram_opendir_def ram_fail_def ram_put_def
  ram_next_def ram_stream_def ram_contents_def canon_def dirname_def basename_def
  EACCES_def ENOENT_def EBADF_def EINVAL_def EEXIST_def ENAMETOOLONG_def

subsection \<open>Helper facts\<close>

lemma errno_status_cases:
  "errno_status EACCES = IOError" "e \<noteq> EACCES \<Longrightarrow> errno_status e = UnknownError"
  by (simp_all add: errno_status_def)

lemma is_error_errno_status: "is_error (errno_status e)"
  by (simp add: is_error_def errno_status_def)

lemma of_nat_eq_U32: "n \<le> unat (x :: U32) \<Longrightarrow> (of_nat n = x) = (n = unat x)"
proof -
  assume a: "n \<le> unat x"
  have "unat x < 2 ^ 32" using unsigned_less [of x, where 'a = nat] by simp
  with a have "n < 2 ^ 32" by simp
  then have "unat (of_nat n :: U32) = n" by (simp add: unat_of_nat)
  then show ?thesis by (auto simp: word_unat_eq_iff)
qed

lemma unat_of_nat_U32: "n \<le> unat (x :: U32) \<Longrightarrow> unat (of_nat n :: U32) = n"
proof -
  assume a: "n \<le> unat x"
  have "unat x < 2 ^ 32" using unsigned_less [of x, where 'a = nat] by simp
  with a have "n < 2 ^ 32" by simp
  then show ?thesis by (simp add: unat_of_nat)
qed

lemma sint_nonneg_U32: "0 \<le> sint (x :: U32) \<Longrightarrow> word_of_int (sint x) = x \<and> x \<noteq> 0xffffffff"
  by auto

text \<open>The handles of the concrete runs are the ones \<open>File_open\<close> returns.\<close>

lemma file_save_opened:
  "File_open ram_libc ''save.dat'' Read File_File ram_game = Inr (Ok, file_save, ram_save_at 0)"
  by (simp add: File_open_def close_if_open_def File_File_def ram_defs file_save_def
        ram_save_at_def)

lemma file_out_opened:
  "File_open ram_libc ''out.dat'' Write File_File ram_game = Inr (Ok, file_out, ram_out)"
  by (simp add: File_open_def close_if_open_def File_File_def ram_defs file_out_def ram_out_def)

text \<open>What \<open>File_setPosition\<close> computes on a handle it accepts, for each kind of seek.\<close>

lemma setPosition_absolute:
  assumes "handle f = Some h" and "currentStatus f = Ok \<or> currentStatus f = EOS"
    and "0 \<le> sint position"
  shows "File_setPosition L position True f w =
     (case fseek L h (sint position) SEEK_SET w of
        (r, w1) \<Rightarrow>
          (case ftell L h w1 of
             (p, w2) \<Rightarrow>
               (let s = (if (word_of_int p :: U32) = 0xffffffff then errno_status (errno L w2)
                         else if (case fstat_size L h w2 of
                                    None \<Rightarrow> 0
                                  | Some sz \<Rightarrow> word_of_int sz) \<le> (word_of_int p :: U32) then EOS
                         else Ok)
                in Inr (s, f\<lparr>currentStatus := s\<rparr>, w2))))"
  using assms
  by (auto simp: File_setPosition_def setPosition_finish_def setStatus_def File_getSize_def
        Let_def
      split: prod.splits option.splits)

lemma setPosition_relative:
  assumes "handle f = Some h" and "currentStatus f = Ok \<or> currentStatus f = EOS"
  shows "File_setPosition L position False f w =
     (case fseek L h (sint position) SEEK_CUR (snd (ftell L h w)) of
        (r, w1) \<Rightarrow>
          (case ftell L h w1 of
             (p, w2) \<Rightarrow>
               (let s = (if (word_of_int p :: U32) = 0xffffffff then errno_status (errno L w2)
                         else if (case fstat_size L h w2 of
                                    None \<Rightarrow> 0
                                  | Some sz \<Rightarrow> word_of_int sz) \<le> (word_of_int p :: U32) then EOS
                         else Ok)
                in Inr (s, f\<lparr>currentStatus := s\<rparr>, w2))))"
  using assms
  by (auto simp: File_setPosition_def setPosition_finish_def setStatus_def File_getSize_def
        File_getPosition_def Let_def
      split: prod.splits option.splits)

text \<open>The invariant \<open>File_inv\<close> holds of a new handle and after every operation.\<close>

lemma File_inv_File: "File_inv File_File"
  by (simp add: File_inv_def File_File_def)

lemma File_inv_close: "File_inv f \<Longrightarrow> File_inv (fst (snd (File_close L f w)))"
  by (auto simp: File_inv_def File_close_def setStatus_def errno_status_def Let_def
      split: option.splits prod.splits)

lemma File_inv_destroy: "File_inv (fst (File_destroy L f w))"
  by (auto simp: File_inv_def File_destroy_def split: prod.splits)

lemma File_inv_setPosition:
  "File_inv f \<Longrightarrow> File_setPosition L p a f w = Inr (s, f', w') \<Longrightarrow> File_inv f'"
  by (auto simp: File_inv_def File_setPosition_def setPosition_finish_def File_getPosition_def
        File_getSize_def setStatus_def errno_status_def Let_def
      split: option.splits prod.splits if_splits sum.splits)

lemma File_inv_open:
  "File_open L n m f w = Inr (s, f', w') \<Longrightarrow> File_inv f'"
proof -
  assume a: "File_open L n m f w = Inr (s, f', w')"
  obtain f1 w1 where c: "close_if_open L f w = (f1, w1)" by (cases "close_if_open L f w")
  obtain r w2 where o: "fopen L n (fopen_mode m) w1 = (r, w2)"
    by (cases "fopen L n (fopen_mode m) w1")
  show ?thesis
  proof (cases r)
    case None
    with a c o show ?thesis
      by (auto simp: File_open_def setStatus_def errno_status_def Let_def File_inv_def)
  next
    case (Some h)
    let ?f2 = "f1\<lparr>handle := Some h, capability := mode_capability m, currentStatus := Ok\<rparr>"
    have i2: "File_inv ?f2" by (simp add: File_inv_def)
    show ?thesis
    proof (cases "m = ReadWrite")
      case False
      with a c o Some i2 show ?thesis by (auto simp: File_open_def Let_def)
    next
      case True
      with a c o Some obtain s3 where "File_setPosition L 0 True ?f2 w2 = Inr (s3, f', w')"
        by (auto simp: File_open_def Let_def split: sum.splits)
      with i2 show ?thesis by (rule File_inv_setPosition)
    qed
  qed
qed

lemma File_inv_read:
  "File_inv f \<Longrightarrow> File_read L n d b f w = Inr (s, f', d', b', w') \<Longrightarrow> File_inv f'"
  by (auto simp: File_inv_def File_read_def Let_def split: option.splits prod.splits if_splits)

lemma File_inv_write:
  "File_inv f \<Longrightarrow> File_write L n d b f w = Inr (s, f', b', w') \<Longrightarrow> File_inv f'"
  by (auto simp: File_inv_def File_write_def setStatus_def errno_status_def Let_def
      split: option.splits prod.splits if_splits)

subsection \<open>File::open\<close>

text \<open>
  Claim C1, as amended. \<open>File_open\<close> first closes a handle that is not closed and calls
  \<^verbatim>\<open>fopen\<close>. If \<^verbatim>\<open>fopen\<close> returns null, the status is set from \<^verbatim>\<open>errno\<close> (\<^verbatim>\<open>EACCES\<close> gives
  \<open>IOError\<close>, every other value \<open>UnknownError\<close>) and returned. If it returns a stream,
  the capability is the one of the mode; for \<open>Read\<close>, \<open>Write\<close> and \<open>WriteAppend\<close> the
  returned status is \<open>Ok\<close>; for \<open>ReadWrite\<close> the position is set to offset 0 and the
  returned status is the one that seek leaves: the status of \<^verbatim>\<open>errno\<close> if the offset
  query gives \<open>-1\<close>, \<open>EOS\<close> if offset 0 is at or past the end of the file, \<open>Ok\<close> otherwise.
\<close>

theorem File_open_returns:
  "(case close_if_open L f w of
      (f1, w1) \<Rightarrow>
        (case fopen L filename (fopen_mode openMode) w1 of
           (None, w2) \<Rightarrow>
             File_open L filename openMode f w =
               Inr (errno_status (errno L w2),
                    f1\<lparr>handle := None, currentStatus := errno_status (errno L w2)\<rparr>, w2)
         | (Some h, w2) \<Rightarrow>
             if openMode \<noteq> ReadWrite then
               File_open L filename openMode f w =
                 Inr (Ok, f1\<lparr>handle := Some h, capability := mode_capability openMode,
                            currentStatus := Ok\<rparr>, w2)
             else
               (case fseek L h 0 SEEK_SET w2 of
                  (r, w3) \<Rightarrow>
                    (case ftell L h w3 of
                       (p, w4) \<Rightarrow>
                         (let s = (if (word_of_int p :: U32) = 0xffffffff
                                     then errno_status (errno L w4)
                                   else if (case fstat_size L h w4 of
                                              None \<Rightarrow> 0
                                            | Some sz \<Rightarrow> word_of_int sz)
                                           \<le> (word_of_int p :: U32)
                                     then EOS
                                   else Ok)
                          in File_open L filename openMode f w =
                               Inr (s, f1\<lparr>handle := Some h,
                                          capability := FileRead OR FileWrite,
                                          currentStatus := s\<rparr>, w4))))))
   \<and> mode_capability Read = FileRead \<and> mode_capability Write = FileWrite
   \<and> mode_capability WriteAppend = FileWrite
   \<and> errno_status EACCES = IOError
   \<and> (\<forall>e. e \<noteq> EACCES \<longrightarrow> errno_status e = UnknownError)"
proof -
  have "?thesis" if c: "close_if_open L f w = (f1, w1)"
    and o: "fopen L filename (fopen_mode openMode) w1 = (r, w2)" for f1 w1 r w2
  proof (cases r)
    case None
    with c o show ?thesis
      by (simp add: File_open_def setStatus_def Let_def errno_status_cases)
  next
    case (Some h)
    show ?thesis
    proof (cases "openMode = ReadWrite")
      case False
      with c o Some show ?thesis
        by (simp add: File_open_def Let_def errno_status_cases)
    next
      case True
      let ?f2 = "f1\<lparr>handle := Some h, capability := FileRead OR FileWrite,
                     currentStatus := Ok\<rparr>"
      have "handle ?f2 = Some h" and "currentStatus ?f2 = Ok \<or> currentStatus ?f2 = EOS"
        and "0 \<le> sint (0::S32)" by simp_all
      note sp = setPosition_absolute [OF this, of L w2, simplified]
      from c o Some True show ?thesis
        by (simp add: File_open_def Let_def errno_status_cases sp split: prod.splits)
    qed
  qed
  then show ?thesis
    by (cases "close_if_open L f w";
        cases "fopen L filename (fopen_mode openMode) (snd (close_if_open L f w))") auto
qed

theorem File_open_returns_witness:
  "returned_status (File_open ram_libc ''secret.dat'' Read File_File ram_game) = Some IOError
   \<and> returned_status (File_open ram_libc ''nowhere.dat'' Read File_File ram_game)
       = Some UnknownError
   \<and> returned_status (File_open ram_libc ''save.dat'' Write File_File ram_game) = Some Ok
   \<and> returned_status (File_open ram_libc ''save.dat'' ReadWrite File_File ram_game) = Some Ok"
  using File_open_returns [where L = ram_libc and f = File_File and w = ram_game
      and filename = "''secret.dat''" and openMode = Read]
    File_open_returns [where L = ram_libc and f = File_File and w = ram_game
      and filename = "''nowhere.dat''" and openMode = Read]
    File_open_returns [where L = ram_libc and f = File_File and w = ram_game
      and filename = "''save.dat''" and openMode = Write]
    File_open_returns [where L = ram_libc and f = File_File and w = ram_game
      and filename = "''save.dat''" and openMode = ReadWrite]
  by (simp add: returned_status_def close_if_open_def File_File_def ram_defs errno_status_def)

text \<open>
  The claim as first stated gives \<open>Ok\<close> whenever the stream is acquired. Opening the
  empty file \<^verbatim>\<open>empty.dat\<close> in mode \<open>ReadWrite\<close> acquires stream 1 and returns \<open>EOS\<close>.
\<close>

theorem File_open_ReadWrite_counterexample:
  "fst (fopen ram_libc ''empty.dat'' (fopen_mode ReadWrite) ram_game) = Some 1
   \<and> returned_status (File_open ram_libc ''empty.dat'' ReadWrite File_File ram_game) = Some EOS"
  by (simp add: returned_status_def File_open_def close_if_open_def File_File_def ram_defs
        File_setPosition_def setPosition_finish_def File_getSize_def)

subsection \<open>File::read\<close>

text \<open>
  Claim C2, as amended. For a call of \<open>File_read\<close> with a size other than 0, on a handle
  whose status is \<open>Ok\<close>, that has the capability \<open>FileRead\<close> and holds a stream, with a
  destination: the bytes stored in the destination are those \<^verbatim>\<open>fread\<close> returns for a
  request of \<open>size\<close> bytes (at most \<open>size\<close>, the bound of \<^verbatim>\<open>fread\<close>), the status becomes
  \<open>EOS\<close> exactly when they are fewer than \<open>size\<close> and stays \<open>Ok\<close> otherwise, and
  \<open>bytesRead\<close>, when not null, receives their number.
\<close>

theorem File_read_nonzero:
  assumes "currentStatus f = Ok" and "hasCapability f FileRead" and "handle f = Some h"
    and "size' \<noteq> 0"
    and "length (fst (fread L h (unat size') w)) \<le> unat size'"
  shows "(let bs = fst (fread L h (unat size') w);
              s = (if length bs < unat size' then EOS else Ok)
          in File_read L size' (Some d) bytesRead f w =
               Inr (s, f\<lparr>currentStatus := s\<rparr>, bs @ drop (length bs) d,
                    (case bytesRead of None \<Rightarrow> None | Some old \<Rightarrow> Some (of_nat (length bs))),
                    snd (fread L h (unat size') w))
             \<and> unat (of_nat (length bs) :: U32) = length bs)"
proof -
  obtain bs w1 where fr: "fread L h (unat size') w = (bs, w1)"
    by (cases "fread L h (unat size') w")
  with assms(5) have le: "length bs \<le> unat size'" by simp
  then have eq: "(of_nat (length bs) = size') = (length bs = unat size')"
    by (rule of_nat_eq_U32)
  from le have u: "unat (of_nat (length bs) :: U32) = length bs" by (rule unat_of_nat_U32)
  have "f\<lparr>currentStatus := Ok\<rparr> = f" using assms(1) by simp
  with assms(1-4) fr le eq u show ?thesis
    by (auto simp: File_read_def Let_def)
qed

theorem File_read_nonzero_witness:
  "File_read ram_libc 3 (Some [0, 0, 0, 0]) (Some 0) file_save (ram_save_at 0) =
     Inr (Ok, file_save, [1, 2, 3, 0], Some 3, ram_save_at 3)
   \<and> returned_status
       (File_read ram_libc 8 (Some [0, 0, 0, 0, 0, 0, 0, 0]) None file_save (ram_save_at 0))
       = Some EOS"
  using File_read_nonzero [where f = file_save and h = 1 and size' = 3 and L = ram_libc
      and w = "ram_save_at 0" and d = "[0, 0, 0, 0]" and bytesRead = "Some 0"]
    File_read_nonzero [where f = file_save and h = 1 and size' = 8 and L = ram_libc
      and w = "ram_save_at 0" and d = "[0, 0, 0, 0, 0, 0, 0, 0]" and bytesRead = None]
  by (simp add: returned_status_def file_save_def ram_save_at_def hasCapability_def
        FileRead_def ram_defs Let_def)

text \<open>
  The claim as first stated covers every size. With size 0 and \<open>bytesRead\<close> pointing to a
  variable that holds 7, the call returns at once and the variable still holds 7, not
  the number of bytes read, which is 0.
\<close>

theorem File_read_zero_counterexample:
  "currentStatus file_save = Ok \<and> hasCapability file_save FileRead
   \<and> File_read ram_libc 0 (Some [0, 0]) (Some 7) file_save (ram_save_at 0) =
       Inr (Ok, file_save, [0, 0], Some 7, ram_save_at 0)"
  by (simp add: File_read_def file_save_def hasCapability_def FileRead_def)

subsection \<open>File::write\<close>

text \<open>
  Claim C6, as amended. For a call of \<open>File_write\<close> with a size other than 0, on a handle
  whose status is \<open>Ok\<close> or \<open>EOS\<close>, that has the capability \<open>FileWrite\<close> and holds a
  stream, with a source: \<open>bytesWritten\<close>, when not null, receives the number of bytes
  \<^verbatim>\<open>fwrite\<close> reports (at most \<open>size\<close>, the bound of \<^verbatim>\<open>fwrite\<close>), and the status becomes an
  error status, the one of \<^verbatim>\<open>errno\<close>, exactly when that number is less than \<open>size\<close>; it
  is unchanged otherwise.
\<close>

theorem File_write_nonzero:
  assumes "currentStatus f = Ok \<or> currentStatus f = EOS" and "hasCapability f FileWrite"
    and "handle f = Some h" and "size' \<noteq> 0"
    and "fst (fwrite L h src (unat size') w) \<le> unat size'"
  shows "(let n = fst (fwrite L h src (unat size') w);
              w1 = snd (fwrite L h src (unat size') w);
              s = (if n < unat size' then errno_status (errno L w1) else currentStatus f)
          in File_write L size' (Some src) bytesWritten f w =
               Inr (s, f\<lparr>currentStatus := s\<rparr>,
                    (case bytesWritten of None \<Rightarrow> None | Some old \<Rightarrow> Some (of_nat n)), w1)
             \<and> unat (of_nat n :: U32) = n
             \<and> (is_error s \<longleftrightarrow> n < unat size'))"
proof -
  obtain n w1 where fw: "fwrite L h src (unat size') w = (n, w1)"
    by (cases "fwrite L h src (unat size') w")
  with assms(5) have le: "n \<le> unat size'" by simp
  then have eq: "(of_nat n = size') = (n = unat size')" by (rule of_nat_eq_U32)
  from le have u: "unat (of_nat n :: U32) = n" by (rule unat_of_nat_U32)
  have ne: "\<not> is_error (currentStatus f)" using assms(1) by (auto simp: is_error_def)
  have "f\<lparr>currentStatus := currentStatus f\<rparr> = f" by simp
  with assms(1-4) fw le eq u ne show ?thesis
    by (auto simp: File_write_def Let_def setStatus_def is_error_errno_status)
qed

theorem File_write_nonzero_witness:
  "File_write ram_libc 3 (Some [4, 5, 6]) (Some 0) file_out ram_out =
     Inr (Ok, file_out, Some 3,
          ram_game\<lparr>ram_files := (''out.dat'', [4, 5, 6]) # ram_files ram_game,
                   ram_streams := [(1, ''out.dat'', 3, False)]\<rparr>)
   \<and> File_write ram_libc_full 3 (Some [4, 5, 6]) (Some 0) file_out ram_out =
     Inr (UnknownError, file_out\<lparr>currentStatus := UnknownError\<rparr>, Some 2,
          ram_game\<lparr>ram_errno := 28, ram_files := (''out.dat'', [4, 5]) # ram_files ram_game,
                   ram_streams := [(1, ''out.dat'', 2, False)]\<rparr>)"
  using File_write_nonzero [where f = file_out and h = 1 and size' = 3 and L = ram_libc
      and w = ram_out and src = "[4, 5, 6]" and bytesWritten = "Some 0"]
    File_write_nonzero [where f = file_out and h = 1 and size' = 3 and L = ram_libc_full
      and w = ram_out and src = "[4, 5, 6]" and bytesWritten = "Some 0"]
  by (simp add: file_out_def ram_out_def hasCapability_def FileWrite_def ram_libc_full_def
        ram_defs Let_def errno_status_def is_error_def)

text \<open>
  The claim as first stated covers every size. With size 0 and \<open>bytesWritten\<close> pointing
  to a variable that holds 7, the call returns at once and the variable still holds 7.
\<close>

theorem File_write_zero_counterexample:
  "currentStatus file_out = Ok \<and> hasCapability file_out FileWrite
   \<and> File_write ram_libc 0 (Some [4, 5, 6]) (Some 7) file_out ram_out =
       Inr (Ok, file_out, Some 7, ram_out)"
  by (simp add: File_write_def file_out_def hasCapability_def FileWrite_def)

subsection \<open>Reads and writes of no bytes\<close>

text \<open>
  Claim C10. On an open handle (not closed, holding a stream) that passes the assertions
  of the call (the capability, a buffer that is not null), \<open>File_read\<close> and
  \<open>File_write\<close> with size 0 return the status of the handle and leave the handle, the
  world, the buffer and the variable behind \<open>bytesRead\<close> or \<open>bytesWritten\<close> as they
  were; the result is the same for every C library, so none of its operations is used.
\<close>

theorem File_read_write_zero:
  assumes "currentStatus f \<noteq> Closed" and "handle f = Some h"
  shows "(hasCapability f FileRead \<longrightarrow>
            File_read L 0 (Some d) bytesRead f w = Inr (currentStatus f, f, d, bytesRead, w))
       \<and> (hasCapability f FileWrite \<longrightarrow>
            File_write L 0 (Some s) bytesWritten f w =
              Inr (currentStatus f, f, bytesWritten, w))"
  using assms by (auto simp: File_read_def File_write_def)

theorem File_read_write_zero_witness:
  "File_read ram_libc 0 (Some [0, 0]) (Some 7) (file_save\<lparr>currentStatus := EOS\<rparr>)
       (ram_save_at 5)
     = Inr (EOS, file_save\<lparr>currentStatus := EOS\<rparr>, [0, 0], Some 7, ram_save_at 5)
   \<and> File_write ram_libc 0 (Some [4, 5, 6]) (Some 7) file_out ram_out
     = Inr (Ok, file_out, Some 7, ram_out)"
  using File_read_write_zero [where f = "file_save\<lparr>currentStatus := EOS\<rparr>" and h = 1
      and L = ram_libc and d = "[0, 0]" and bytesRead = "Some 7" and w = "ram_save_at 5"]
    File_read_write_zero [where f = file_out and h = 1 and L = ram_libc and s = "[4, 5, 6]"
      and bytesWritten = "Some 7" and w = ram_out]
  by (simp add: file_save_def file_out_def hasCapability_def FileRead_def FileWrite_def)

subsection \<open>File::close and the destructor\<close>

text \<open>
  Claim C7, as amended. \<open>File_close\<close> on a closed handle returns \<open>Closed\<close> and changes
  nothing. On a handle that is not closed it returns \<open>Closed\<close> and clears the handle when
  there is no stream or \<^verbatim>\<open>fclose\<close> succeeds, and after any close that returned
  \<open>Closed\<close> a second close returns \<open>Closed\<close> and changes nothing. When \<^verbatim>\<open>fclose\<close> fails,
  the close returns the error status of \<^verbatim>\<open>errno\<close> instead. Destroying a handle that was
  never opened returns it unchanged and leaves the world alone. Every close and every
  destructor of a handle that holds a stream passes that stream to \<^verbatim>\<open>fclose\<close>: the world
  after it is the world \<^verbatim>\<open>fclose\<close> returns.
\<close>

theorem File_close_twice:
  "(currentStatus f = Closed \<longrightarrow> File_close L f w = (Closed, f, w))
   \<and> (currentStatus f \<noteq> Closed \<and> handle f = None \<longrightarrow>
        File_close L f w = (Closed, f\<lparr>handle := None, currentStatus := Closed\<rparr>, w))
   \<and> (\<forall>h. currentStatus f \<noteq> Closed \<and> handle f = Some h \<and> fst (fclose L h w) = 0 \<longrightarrow>
        File_close L f w =
          (Closed, f\<lparr>handle := None, currentStatus := Closed\<rparr>, snd (fclose L h w)))
   \<and> (\<forall>h. currentStatus f \<noteq> Closed \<and> handle f = Some h \<and> fst (fclose L h w) \<noteq> 0 \<longrightarrow>
        File_close L f w =
          (errno_status (errno L (snd (fclose L h w))),
           f\<lparr>currentStatus := errno_status (errno L (snd (fclose L h w)))\<rparr>,
           snd (fclose L h w)))
   \<and> (fst (File_close L f w) = Closed \<longrightarrow>
        File_close L (fst (snd (File_close L f w))) (snd (snd (File_close L f w))) =
          (Closed, fst (snd (File_close L f w)), snd (snd (File_close L f w))))
   \<and> File_destroy L File_File w = (File_File, w)
   \<and> (\<forall>h. File_inv f \<and> handle f = Some h \<longrightarrow>
        snd (snd (File_close L f w)) = snd (fclose L h w)
        \<and> snd (File_destroy L f w) = snd (fclose L h w)
        \<and> handle (fst (File_destroy L f w)) = None)"
  by (auto simp: File_close_def File_destroy_def File_File_def File_inv_def setStatus_def
        Let_def errno_status_def
      split: option.splits prod.splits)

theorem File_close_twice_witness:
  "File_close ram_libc file_save (ram_save_at 0) =
       (Closed, file_save\<lparr>handle := None, currentStatus := Closed\<rparr>, ram_game)
   \<and> File_close ram_libc (file_save\<lparr>handle := None, currentStatus := Closed\<rparr>) ram_game =
       (Closed, file_save\<lparr>handle := None, currentStatus := Closed\<rparr>, ram_game)
   \<and> snd (File_destroy ram_libc file_save (ram_save_at 0)) = ram_game"
proof -
  have c: "fclose ram_libc 1 (ram_save_at 0) = (0, ram_game)"
    by (simp add: ram_save_at_def ram_defs)
  have i: "File_inv file_save \<and> currentStatus file_save \<noteq> Closed
           \<and> handle file_save = Some 1"
    by (simp add: file_save_def File_inv_def)
  from File_close_twice [where f = file_save and L = ram_libc and w = "ram_save_at 0"]
    File_close_twice [where f = "file_save\<lparr>handle := None, currentStatus := Closed\<rparr>"
      and L = ram_libc and w = ram_game] c i
  show ?thesis by simp
qed

text \<open>
  The claim as first stated has two successive closes both return \<open>Closed\<close>. When
  \<^verbatim>\<open>fclose\<close> reports an error, here \<^verbatim>\<open>EIO\<close>, the first close returns \<open>UnknownError\<close>, and
  so does the second.
\<close>

theorem File_close_failure_counterexample:
  "fst (File_close ram_libc_eio file_out ram_out) = UnknownError
   \<and> fst (File_close ram_libc_eio (fst (snd (File_close ram_libc_eio file_out ram_out)))
            (snd (snd (File_close ram_libc_eio file_out ram_out)))) = UnknownError"
  by (simp add: File_close_def file_out_def ram_out_def ram_libc_eio_def setStatus_def
        errno_status_def ram_defs)

subsection \<open>File::setPosition and File::getPosition\<close>

text \<open>
  Claim C3. A call of \<open>File_setPosition\<close> on a handle that holds a stream and whose
  status is \<open>Ok\<close> or \<open>EOS\<close>, with a position that is not negative when it is absolute,
  seeks and asks \<^verbatim>\<open>ftell\<close> for the offset. If that query gives the value \<open>0xffffffff\<close>
  (\<open>-1\<close>), the status is set from \<^verbatim>\<open>errno\<close>, an error status; otherwise it becomes \<open>EOS\<close>
  if the offset is at or past the size of the file and \<open>Ok\<close> if not. In particular,
  where \<^verbatim>\<open>ftell\<close> answers 0 after the seek to 0, \<open>File_getPosition\<close> after
  \<open>File_setPosition 0\<close> returns 0; and where \<^verbatim>\<open>ftell\<close> answers the size after the seek to
  the size, \<open>File_setPosition\<close> to the size leaves the status \<open>EOS\<close> and a read after it
  returns \<open>EOS\<close> with the status still \<open>EOS\<close>.
\<close>

theorem File_setPosition_status:
  assumes h: "handle f = Some h" and st: "currentStatus f = Ok \<or> currentStatus f = EOS"
  shows
    "((absolutePos \<longrightarrow> 0 \<le> sint position) \<longrightarrow>
        (case fseek L h (sint position) (if absolutePos then SEEK_SET else SEEK_CUR)
                (if absolutePos then w else snd (ftell L h w)) of
           (r, w1) \<Rightarrow>
             (case ftell L h w1 of
                (p, w2) \<Rightarrow>
                  (let endOfFile = (case fstat_size L h w2 of
                                      None \<Rightarrow> 0
                                    | Some sz \<Rightarrow> word_of_int sz);
                       s = (if (word_of_int p :: U32) = 0xffffffff
                              then errno_status (errno L w2)
                            else if endOfFile \<le> (word_of_int p :: U32) then EOS
                            else Ok)
                   in File_setPosition L position absolutePos f w =
                        Inr (s, f\<lparr>currentStatus := s\<rparr>, w2)
                      \<and> is_error (errno_status (errno L w2))))))
     \<and> (\<forall>w2 w3. ftell L h (snd (fseek L h 0 SEEK_SET w)) = (0, w2) \<and> ftell L h w2 = (0, w3) \<longrightarrow>
          (\<exists>s f'. File_setPosition L 0 True f w = Inr (s, f', w2)
                 \<and> File_getPosition L f' w2 = Inr (0, w3)))
     \<and> (\<forall>size' w2 n d bytesRead.
          File_getSize L f w = Inr size' \<and> 0 \<le> sint size'
          \<and> ftell L h (snd (fseek L h (sint size') SEEK_SET w)) = (sint size', w2)
          \<and> fstat_size L h w2 = fstat_size L h w \<and> hasCapability f FileRead \<longrightarrow>
          File_setPosition L size' True f w = Inr (EOS, f\<lparr>currentStatus := EOS\<rparr>, w2)
          \<and> File_read L n (Some d) bytesRead (f\<lparr>currentStatus := EOS\<rparr>) w2 =
              Inr (EOS, f\<lparr>currentStatus := EOS\<rparr>, d, bytesRead, w2))"
proof (intro conjI allI impI)
  assume "absolutePos \<longrightarrow> 0 \<le> sint position"
  then show "case fseek L h (sint position) (if absolutePos then SEEK_SET else SEEK_CUR)
                (if absolutePos then w else snd (ftell L h w)) of
           (r, w1) \<Rightarrow>
             (case ftell L h w1 of
                (p, w2) \<Rightarrow>
                  (let endOfFile = (case fstat_size L h w2 of
                                      None \<Rightarrow> 0
                                    | Some sz \<Rightarrow> word_of_int sz);
                       s = (if (word_of_int p :: U32) = 0xffffffff
                              then errno_status (errno L w2)
                            else if endOfFile \<le> (word_of_int p :: U32) then EOS
                            else Ok)
                   in File_setPosition L position absolutePos f w =
                        Inr (s, f\<lparr>currentStatus := s\<rparr>, w2)
                      \<and> is_error (errno_status (errno L w2))))"
    using setPosition_absolute [OF h st, of position L w]
      setPosition_relative [OF h st, of L position w]
    by (cases absolutePos) (auto simp: Let_def is_error_errno_status split: prod.splits)
next
  fix w2 w3
  assume a: "ftell L h (snd (fseek L h 0 SEEK_SET w)) = (0, w2) \<and> ftell L h w2 = (0, w3)"
  have z: "0 \<le> sint (0 :: S32)" by simp
  from a setPosition_absolute [OF h st z, of L w]
  obtain s where sp: "File_setPosition L 0 True f w = Inr (s, f\<lparr>currentStatus := s\<rparr>, w2)"
    and ok: "s = EOS \<or> s = Ok"
    by (auto simp: Let_def split: prod.splits if_splits)
  from a ok h have "File_getPosition L (f\<lparr>currentStatus := s\<rparr>) w2 = Inr (0, w3)"
    by (auto simp: File_getPosition_def)
  with sp show "\<exists>s f'. File_setPosition L 0 True f w = Inr (s, f', w2)
                 \<and> File_getPosition L f' w2 = Inr (0, w3)" by blast
next
  fix size' w2 n d bytesRead
  assume a: "File_getSize L f w = Inr size' \<and> 0 \<le> sint size'
          \<and> ftell L h (snd (fseek L h (sint size') SEEK_SET w)) = (sint size', w2)
          \<and> fstat_size L h w2 = fstat_size L h w \<and> hasCapability f FileRead"
  then have z: "0 \<le> sint size'" by simp
  note wn = sint_nonneg_U32 [OF z]
  note wd = wn [THEN conjunct1] and nm = wn [THEN conjunct2]
  from a h st
  have sz: "(case fstat_size L h w2 of None \<Rightarrow> 0 | Some sz \<Rightarrow> word_of_int sz) = size'"
    by (auto simp: File_getSize_def split: option.splits)
  from a setPosition_absolute [OF h st z, of L w] wd nm sz
  show "File_setPosition L size' True f w = Inr (EOS, f\<lparr>currentStatus := EOS\<rparr>, w2)"
    by (auto simp: Let_def split: prod.splits)
  from a h show "File_read L n (Some d) bytesRead (f\<lparr>currentStatus := EOS\<rparr>) w2 =
              Inr (EOS, f\<lparr>currentStatus := EOS\<rparr>, d, bytesRead, w2)"
    by (simp add: File_read_def hasCapability_def)
qed

theorem File_setPosition_status_witness:
  "File_setPosition ram_libc 2 True file_save (ram_save_at 4) =
     Inr (Ok, file_save, ram_save_at 2)
   \<and> File_setPosition ram_libc (- 1) False file_save (ram_save_at 4) =
     Inr (Ok, file_save, ram_save_at 3)
   \<and> (\<exists>s f'. File_setPosition ram_libc 0 True file_save (ram_save_at 4) =
               Inr (s, f', ram_save_at 0)
            \<and> File_getPosition ram_libc f' (ram_save_at 0) = Inr (0, ram_save_at 0))
   \<and> File_getSize ram_libc file_save (ram_save_at 4) = Inr 5
   \<and> File_setPosition ram_libc 5 True file_save (ram_save_at 4) =
     Inr (EOS, file_save\<lparr>currentStatus := EOS\<rparr>, ram_save_at 5)
   \<and> File_read ram_libc 2 (Some [0, 0]) (Some 0) (file_save\<lparr>currentStatus := EOS\<rparr>)
       (ram_save_at 5) =
     Inr (EOS, file_save\<lparr>currentStatus := EOS\<rparr>, [0, 0], Some 0, ram_save_at 5)"
proof -
  have h: "handle file_save = Some 1"
    and st: "currentStatus file_save = Ok \<or> currentStatus file_save = EOS"
    and cap: "hasCapability file_save FileRead"
    by (simp_all add: file_save_def hasCapability_def FileRead_def)
  note T = File_setPosition_status [where L = ram_libc and w = "ram_save_at 4", OF h st]
  have sk: "fseek ram_libc (Suc 0) n SEEK_SET (ram_save_at 4) = (0, ram_save_at (nat n))"
    if "0 \<le> n" for n
    using that by (simp add: ram_save_at_def ram_defs)
  have sc: "fseek ram_libc (Suc 0) (- 1) SEEK_CUR (ram_save_at 4) = (0, ram_save_at 3)"
    by (simp add: ram_save_at_def ram_defs)
  have tl: "ftell ram_libc (Suc 0) (ram_save_at k) = (int k, ram_save_at k)" for k
    by (simp add: ram_save_at_def ram_defs)
  have fs: "fstat_size ram_libc (Suc 0) (ram_save_at k) = Some 5" for k
    by (simp add: ram_save_at_def ram_defs)
  have gs: "File_getSize ram_libc file_save (ram_save_at 4) = Inr 5"
    by (simp add: File_getSize_def file_save_def fs)
  have fi: "file_save\<lparr>currentStatus := Ok\<rparr> = file_save" by (simp add: file_save_def)
  from T [where position = 2 and absolutePos = True, THEN conjunct1]
  have p1: "File_setPosition ram_libc 2 True file_save (ram_save_at 4) =
     Inr (Ok, file_save, ram_save_at 2)"
    by (simp add: sk tl fs fi)
  from T [where position = "- 1" and absolutePos = False, THEN conjunct1]
  have p2: "File_setPosition ram_libc (- 1) False file_save (ram_save_at 4) =
     Inr (Ok, file_save, ram_save_at 3)"
    by (simp add: sc tl fs fi)
  from T [where position = 0 and absolutePos = True, THEN conjunct2, THEN conjunct1,
      THEN spec, THEN spec, of "ram_save_at 0" "ram_save_at 0"]
  have p3: "\<exists>s f'. File_setPosition ram_libc 0 True file_save (ram_save_at 4) =
               Inr (s, f', ram_save_at 0)
            \<and> File_getPosition ram_libc f' (ram_save_at 0) = Inr (0, ram_save_at 0)"
    using sk [of 0] tl [of 0] by simp
  from T [where position = 0 and absolutePos = True, THEN conjunct2, THEN conjunct2,
      THEN spec, THEN spec, THEN spec, THEN spec, THEN spec,
      of 5 "ram_save_at 5" 2 "[0, 0]" "Some 0"]
  have p4: "File_setPosition ram_libc 5 True file_save (ram_save_at 4) =
     Inr (EOS, file_save\<lparr>currentStatus := EOS\<rparr>, ram_save_at 5)
   \<and> File_read ram_libc 2 (Some [0, 0]) (Some 0) (file_save\<lparr>currentStatus := EOS\<rparr>)
       (ram_save_at 5) =
     Inr (EOS, file_save\<lparr>currentStatus := EOS\<rparr>, [0, 0], Some 0, ram_save_at 5)"
    using sk [of 5] tl [of 5] fs gs cap by simp
  from p1 p2 p3 gs p4 show ?thesis by blast
qed

subsection \<open>createPath\<close>

lemma dStrrchr_None: "dStrrchr s c = None \<longleftrightarrow> c \<notin> set s"
  by (induction s) (auto split: option.splits)

lemma dStrrchr_max: "dStrrchr s c = Some i \<Longrightarrow> k < length s \<Longrightarrow> s ! k = c \<Longrightarrow> k \<le> i"
proof (induction s arbitrary: i k)
  case Nil
  then show ?case by simp
next
  case (Cons x xs)
  show ?case
  proof (cases k)
    case 0
    then show ?thesis by simp
  next
    case (Suc k')
    with Cons.prems have k': "k' < length xs" "xs ! k' = c" by simp_all
    then have "c \<in> set xs" by (metis nth_mem)
    then obtain j where j: "dStrrchr xs c = Some j" using dStrrchr_None [of xs c] by auto
    with Cons.prems have "i = Suc j" by simp
    moreover from Cons.IH [OF j k'] have "k' \<le> j" .
    ultimately show ?thesis using Suc by simp
  qed
qed

lemma ancestors_iff:
  "q \<in> set (ancestors p) \<longleftrightarrow> prefix q p \<and> 1 < length q \<and> last q = CHR ''/''"
  by (auto simp: ancestors_def in_set_prefixes)

lemma ancestors_step:
  assumes ne: "fl \<noteq> []" and q: "q \<in> set (ancestors fl)"
  shows "(q = fl \<and> last fl = CHR ''/'')
       \<or> (\<exists>i. dStrrchr (if last fl = CHR ''/'' then butlast fl else fl) CHR ''/'' = Some i
              \<and> i \<noteq> 0
              \<and> q \<in> set (ancestors
                     (take (Suc i) (if last fl = CHR ''/'' then butlast fl else fl))))"
proof (cases "q = fl")
  case True
  with q show ?thesis by (simp add: ancestors_iff)
next
  case False
  define parent where "parent = (if last fl = CHR ''/'' then butlast fl else fl)"
  from q have pq: "prefix q fl" and lq: "1 < length q" and sl: "last q = CHR ''/''"
    by (simp_all add: ancestors_iff)
  from pq obtain r where r: "fl = q @ r" by (auto simp: prefix_def)
  with False have rne: "r \<noteq> []" by auto
  define k where "k = length q - 1"
  from lq have qne: "q \<noteq> []" by auto
  have kq: "k < length q" using lq by (simp add: k_def)
  have k0: "k \<noteq> 0" using lq by (simp add: k_def)
  have qk: "q ! k = CHR ''/''" using sl qne by (simp add: last_conv_nth k_def)
  have pq2: "prefix q parent"
  proof (cases "last fl = CHR ''/''")
    case True
    then have "parent = q @ butlast r" using r rne by (simp add: parent_def butlast_append)
    then show ?thesis by simp
  next
    case False
    then show ?thesis using pq by (simp add: parent_def)
  qed
  then obtain r' where r': "parent = q @ r'" by (auto simp: prefix_def)
  have kpar: "k < length parent" using kq r' by simp
  have at: "parent ! k = CHR ''/''" using qk kq r' by (simp add: nth_append)
  then have "CHR ''/'' \<in> set parent" using kpar nth_mem by fastforce
  then obtain i where i: "dStrrchr parent CHR ''/'' = Some i"
    using dStrrchr_None [of parent "CHR ''/''"] by auto
  from dStrrchr_max [OF i kpar at] have ki: "k \<le> i" .
  with k0 have i0: "i \<noteq> 0" by arith
  have "length q \<le> Suc i" using ki by (simp add: k_def)
  then have "take (Suc i) parent = q @ take (Suc i - length q) r'" using r' by simp
  then have "prefix q (take (Suc i) parent)" by simp
  with lq sl have "q \<in> set (ancestors (take (Suc i) parent))" by (simp add: ancestors_iff)
  with i i0 show ?thesis unfolding parent_def by blast
qed

lemma createPath_ancestors:
  assumes mk: "\<And>p v v'. mkdir L p v = (0, v') \<Longrightarrow> stat L p v' \<noteq> None"
    and keep: "\<And>p q v. stat L q v \<noteq> None \<Longrightarrow> stat L q (snd (mkdir L p v)) \<noteq> None"
    and closed: "\<And>p q. stat L p w \<noteq> None \<Longrightarrow> q \<in> set (ancestors p) \<Longrightarrow> stat L q w \<noteq> None"
  shows "createPath L fl w = Some (True, w') \<Longrightarrow> q \<in> set (ancestors fl) \<Longrightarrow> stat L q w' \<noteq> None"
proof (induction fl arbitrary: w' q rule: length_induct)
  case (1 fl)
  note res = "1.prems"(1) and q = "1.prems"(2)
  show ?case
  proof (cases "stat L fl w \<noteq> None")
    case True
    with res have "w' = w" by (simp add: createPath.simps [of L fl w])
    with True q closed show ?thesis by blast
  next
    case nostat: False
    show ?thesis
    proof (cases "fl = []")
      case True
      with nostat res show ?thesis by (simp add: createPath.simps [of L "[]" w])
    next
      case ne: False
      define isDirPath where "isDirPath = (last fl = CHR ''/'')"
      define parent where "parent = (if isDirPath then butlast fl else fl)"
      define made where "made = (case dStrrchr parent CHR ''/'' of
                       None \<Rightarrow> Some (True, w)
                     | Some i \<Rightarrow>
                         if i \<noteq> 0 then createPath L (take (Suc i) parent) w
                         else Some (True, w))"
      from nostat ne have cp: "createPath L fl w =
         (case made of
              None \<Rightarrow> None
            | Some (ok, w1) \<Rightarrow>
                if \<not> ok then Some (False, w1)
                else if isDirPath then
                  (case mkdir L fl w1 of
                     (r, w2) \<Rightarrow> if r \<noteq> 0 then Some (False, w2) else Some (True, w2))
                else Some (True, w1))"
        unfolding made_def parent_def isDirPath_def
        by (simp add: createPath.simps [of L fl w] Let_def)
      with res obtain w1 where made1: "made = Some (True, w1)"
        by (auto split: option.splits if_splits prod.splits)
      with cp res have fin: "(isDirPath \<and> mkdir L fl w1 = (0, w')) \<or> (\<not> isDirPath \<and> w' = w1)"
        by (auto split: if_splits prod.splits)
      \<comment> \<open>what the recursive call has ensured\<close>
      have rec: "stat L q w1 \<noteq> None"
        if "dStrrchr parent CHR ''/'' = Some i" and "i \<noteq> 0"
          and "q \<in> set (ancestors (take (Suc i) parent))" for i
      proof -
        from that made1 have c: "createPath L (take (Suc i) parent) w = Some (True, w1)"
          by (simp add: made_def)
        from that(1) have "i < length parent" using dStrrchr_Some by blast
        moreover have "length parent \<le> length fl" by (simp add: parent_def)
        moreover have "Suc i < length fl"
        proof (cases isDirPath)
          case True
          with \<open>i < length parent\<close> show ?thesis by (simp add: parent_def)
        next
          case False
          with that(1) ne show ?thesis using dStrrchr_last [of fl "CHR ''/''" i]
            by (simp add: parent_def isDirPath_def)
        qed
        ultimately have "length (take (Suc i) parent) < length fl" by simp
        with "1.IH" c that(3) show ?thesis by blast
      qed
      from ancestors_step [OF ne q]
      have "(q = fl \<and> isDirPath)
         \<or> (\<exists>i. dStrrchr parent CHR ''/'' = Some i \<and> i \<noteq> 0
                \<and> q \<in> set (ancestors (take (Suc i) parent)))"
        by (simp add: parent_def isDirPath_def)
      then show ?thesis
      proof
        assume a: "q = fl \<and> isDirPath"
        with fin have "mkdir L fl w1 = (0, w')" by simp
        with mk a show ?thesis by blast
      next
        assume "\<exists>i. dStrrchr parent CHR ''/'' = Some i \<and> i \<noteq> 0
                \<and> q \<in> set (ancestors (take (Suc i) parent))"
        then obtain i where "dStrrchr parent CHR ''/'' = Some i" "i \<noteq> 0"
          "q \<in> set (ancestors (take (Suc i) parent))" by blast
        then have s1: "stat L q w1 \<noteq> None" by (rule rec)
        from fin show ?thesis
        proof
          assume "isDirPath \<and> mkdir L fl w1 = (0, w')"
          then have "w' = snd (mkdir L fl w1)" by simp
          with keep [OF s1, of fl] show ?thesis by simp
        next
          assume "\<not> isDirPath \<and> w' = w1"
          with s1 show ?thesis by simp
        qed
      qed
    qed
  qed
qed

lemma createPath_exists: "stat L fl w \<noteq> None \<Longrightarrow> createPath L fl w = Some (True, w)"
  by (simp add: createPath.simps [of L fl w])

lemma createPath_unfold:
  assumes "stat L fl w = None" and "fl \<noteq> []"
  shows "createPath L fl w =
     (case (case dStrrchr (if last fl = CHR ''/'' then butlast fl else fl) CHR ''/'' of
              None \<Rightarrow> Some (True, w)
            | Some i \<Rightarrow>
                if i \<noteq> 0 then
                  createPath L (take (Suc i) (if last fl = CHR ''/'' then butlast fl else fl)) w
                else Some (True, w)) of
        None \<Rightarrow> None
      | Some (ok, w1) \<Rightarrow>
          if \<not> ok then Some (False, w1)
          else if last fl = CHR ''/'' then
            (case mkdir L fl w1 of
               (r, w2) \<Rightarrow> if r \<noteq> 0 then Some (False, w2) else Some (True, w2))
          else Some (True, w1))"
  using assms by (simp add: createPath.simps [of L fl w] Let_def)

lemma createPath_dir:
  assumes mk: "mkdir_makes L"
    and res: "createPath L fl w = Some (True, w')" and dir: "last fl = CHR ''/''"
  shows "stat L fl w' \<noteq> None"
proof (cases "stat L fl w \<noteq> None")
  case True
  with res show ?thesis by (simp add: createPath_exists)
next
  case False
  then have n: "stat L fl w = None" by simp
  have ne: "fl \<noteq> []"
  proof
    assume "fl = []"
    with n res show False by (simp add: createPath.simps [of L "[]" w])
  qed
  from res dir obtain w1 where "mkdir L fl w1 = (0, w')"
    unfolding createPath_unfold [OF n ne]
    by (auto split: option.splits if_splits prod.splits)
  with mk show ?thesis unfolding mkdir_makes_def by blast
qed

lemma createPath_again:
  assumes mk: "mkdir_makes L" and keep: "mkdir_keeps L" and closed: "ancestors_exist L w"
    and res: "createPath L fl w = Some (True, w')"
  shows "createPath L fl w' = Some (True, w')"
proof (cases "stat L fl w' \<noteq> None")
  case True
  then show ?thesis by (rule createPath_exists)
next
  case False
  then have n: "stat L fl w' = None" by simp
  have anc: "stat L q w' \<noteq> None" if "q \<in> set (ancestors fl)" for q
    using createPath_ancestors [of L w fl w' q] mk keep closed res that
    unfolding mkdir_makes_def mkdir_keeps_def ancestors_exist_def by blast
  have ne: "fl \<noteq> []"
  proof
    assume e: "fl = []"
    with res have "w' = w \<and> stat L [] w \<noteq> None"
      by (simp add: createPath.simps [of L "[]" w] split: if_splits)
    with n e show False by simp
  qed
  have nd: "last fl \<noteq> CHR ''/''" using createPath_dir [OF mk res] n by auto
  show ?thesis
  proof (cases "dStrrchr fl CHR ''/''")
    case None
    with nd show ?thesis unfolding createPath_unfold [OF n ne] by simp
  next
    case (Some i)
    show ?thesis
    proof (cases "i = 0")
      case True
      with Some nd show ?thesis unfolding createPath_unfold [OF n ne] by simp
    next
      case False
      from Some have il: "i < length fl" and at: "fl ! i = CHR ''/''"
        using dStrrchr_Some by blast+
      have "prefix (take (Suc i) fl) fl" by (rule take_is_prefix)
      moreover have "last (take (Suc i) fl) = CHR ''/''"
        using il at by (simp add: take_Suc_conv_app_nth)
      moreover have "1 < length (take (Suc i) fl)" using il False by simp
      ultimately have "take (Suc i) fl \<in> set (ancestors fl)" by (simp add: ancestors_iff)
      then have "stat L (take (Suc i) fl) w' \<noteq> None" by (rule anc)
      then have "createPath L (take (Suc i) fl) w' = Some (True, w')"
        by (rule createPath_exists)
      with Some False nd show ?thesis unfolding createPath_unfold [OF n ne] by simp
    qed
  qed
qed

lemma ram_mkdir_makes: "mkdir_makes ram_libc"
  unfolding mkdir_makes_def
  by (auto simp: ram_libc_def ram_mkdir_def ram_stat_def Let_def ram_fail_def canon_def
      split: if_splits)

lemma ram_mkdir_keeps: "mkdir_keeps ram_libc"
  unfolding mkdir_keeps_def
  by (auto simp: ram_libc_def ram_mkdir_def ram_stat_def Let_def ram_fail_def
      split: if_splits option.splits)

lemma ram_empty_ancestors: "ancestors_exist ram_libc ram_empty"
  unfolding ancestors_exist_def
  by (simp add: ram_libc_def ram_stat_def ram_empty_def)

lemma createPath_abc: "createPath ram_libc ''a/b/c/'' ram_empty = Some (True, ram_abc)"
  by (simp add: createPath.simps Let_def ram_abc_def ram_defs)

text \<open>
  Claim C9. \<open>createPath\<close> returns true at once, changing nothing, when \<^verbatim>\<open>stat\<close> finds the
  path. Otherwise it first calls itself on the parent path (the path cut after its last
  separator that is not the leading one, the trailing separator of a directory path
  apart), fails if that fails, and then makes the path itself with \<^verbatim>\<open>mkdir\<close> when it ends
  in a separator. On a file system where \<^verbatim>\<open>mkdir\<close> behaves, a call that returns true
  leaves every directory prefix of the path in existence, and the same call again
  returns true and changes nothing. \<^verbatim>\<open>createPath("a/b/c/")\<close> on the empty file system
  makes \<^verbatim>\<open>a\<close>, \<^verbatim>\<open>a/b\<close> and \<^verbatim>\<open>a/b/c\<close>, in that order, and a second call is a no-op
  returning true.
\<close>

theorem createPath_ensures:
  "(stat L file w \<noteq> None \<longrightarrow> createPath L file w = Some (True, w))
   \<and> (stat L file w = None \<and> file \<noteq> [] \<longrightarrow>
        createPath L file w =
          (case (case dStrrchr (if last file = CHR ''/'' then butlast file else file) CHR ''/'' of
                   None \<Rightarrow> Some (True, w)
                 | Some i \<Rightarrow>
                     if i \<noteq> 0 then
                       createPath L
                         (take (Suc i) (if last file = CHR ''/'' then butlast file else file)) w
                     else Some (True, w)) of
             None \<Rightarrow> None
           | Some (ok, w1) \<Rightarrow>
               if \<not> ok then Some (False, w1)
               else if last file = CHR ''/'' then
                 (case mkdir L file w1 of
                    (r, w2) \<Rightarrow> if r \<noteq> 0 then Some (False, w2) else Some (True, w2))
               else Some (True, w1)))
   \<and> (mkdir_makes L \<and> mkdir_keeps L \<and> ancestors_exist L w \<longrightarrow>
        (\<forall>w'. createPath L file w = Some (True, w') \<longrightarrow>
           (\<forall>q \<in> set (ancestors file). stat L q w' \<noteq> None)
           \<and> createPath L file w' = Some (True, w')))
   \<and> ancestors ''a/b/c/'' = [''a/'', ''a/b/'', ''a/b/c/'']
   \<and> createPath ram_libc ''a/b/c/'' ram_empty = Some (True, ram_abc)
   \<and> createPath ram_libc ''a/b/c/'' ram_abc = Some (True, ram_abc)"
proof (intro conjI impI allI ballI)
  assume "stat L file w \<noteq> None"
  then show "createPath L file w = Some (True, w)" by (rule createPath_exists)
next
  assume "stat L file w = None \<and> file \<noteq> []"
  then have n: "stat L file w = None" and ne: "file \<noteq> []" by simp_all
  show "createPath L file w =
          (case (case dStrrchr (if last file = CHR ''/'' then butlast file else file) CHR ''/'' of
                   None \<Rightarrow> Some (True, w)
                 | Some i \<Rightarrow>
                     if i \<noteq> 0 then
                       createPath L
                         (take (Suc i) (if last file = CHR ''/'' then butlast file else file)) w
                     else Some (True, w)) of
             None \<Rightarrow> None
           | Some (ok, w1) \<Rightarrow>
               if \<not> ok then Some (False, w1)
               else if last file = CHR ''/'' then
                 (case mkdir L file w1 of
                    (r, w2) \<Rightarrow> if r \<noteq> 0 then Some (False, w2) else Some (True, w2))
               else Some (True, w1))"
    by (rule createPath_unfold [OF n ne])
next
  fix w' q
  assume c: "mkdir_makes L \<and> mkdir_keeps L \<and> ancestors_exist L w"
    and r: "createPath L file w = Some (True, w')" and q: "q \<in> set (ancestors file)"
  from c r q show "stat L q w' \<noteq> None"
    using createPath_ancestors [of L w "file" w' q]
    unfolding mkdir_makes_def mkdir_keeps_def ancestors_exist_def by blast
next
  fix w'
  assume c: "mkdir_makes L \<and> mkdir_keeps L \<and> ancestors_exist L w"
    and r: "createPath L file w = Some (True, w')"
  from c have mk: "mkdir_makes L" and keep: "mkdir_keeps L" and closed: "ancestors_exist L w"
    by simp_all
  show "createPath L file w' = Some (True, w')" by (rule createPath_again [OF mk keep closed r])
next
  show "ancestors ''a/b/c/'' = [''a/'', ''a/b/'', ''a/b/c/'']" by (simp add: ancestors_def)
next
  show "createPath ram_libc ''a/b/c/'' ram_empty = Some (True, ram_abc)" by (rule createPath_abc)
next
  show "createPath ram_libc ''a/b/c/'' ram_abc = Some (True, ram_abc)"
    by (rule createPath_exists) (simp add: ram_abc_def ram_defs)
qed

theorem createPath_ensures_witness:
  "createPath ram_libc ''a/b/c.txt'' ram_empty = Some (True, ram_empty\<lparr>ram_dirs := [''a'', ''a/b'']\<rparr>)
   \<and> stat ram_libc ''a/'' (ram_empty\<lparr>ram_dirs := [''a'', ''a/b'']\<rparr>) \<noteq> None
   \<and> stat ram_libc ''a/b/'' (ram_empty\<lparr>ram_dirs := [''a'', ''a/b'']\<rparr>) \<noteq> None
   \<and> createPath ram_libc ''a/b/c.txt'' (ram_empty\<lparr>ram_dirs := [''a'', ''a/b'']\<rparr>)
       = Some (True, ram_empty\<lparr>ram_dirs := [''a'', ''a/b'']\<rparr>)"
proof -
  have c: "createPath ram_libc ''a/b/c.txt'' ram_empty
             = Some (True, ram_empty\<lparr>ram_dirs := [''a'', ''a/b'']\<rparr>)"
    by (simp add: createPath.simps Let_def ram_defs)
  have a: "ancestors ''a/b/c.txt'' = [''a/'', ''a/b/'']" by (simp add: ancestors_def)
  have m: "mkdir_makes ram_libc \<and> mkdir_keeps ram_libc \<and> ancestors_exist ram_libc ram_empty"
    using ram_mkdir_makes ram_mkdir_keeps ram_empty_ancestors by simp
  note T = createPath_ensures [of ram_libc "''a/b/c.txt''" ram_empty,
      THEN conjunct2, THEN conjunct2, THEN conjunct1, rule_format, OF m c]
  from T have "stat ram_libc ''a/'' (ram_empty\<lparr>ram_dirs := [''a'', ''a/b'']\<rparr>) \<noteq> None"
    and "stat ram_libc ''a/b/'' (ram_empty\<lparr>ram_dirs := [''a'', ''a/b'']\<rparr>) \<noteq> None"
    and "createPath ram_libc ''a/b/c.txt'' (ram_empty\<lparr>ram_dirs := [''a'', ''a/b'']\<rparr>)
       = Some (True, ram_empty\<lparr>ram_dirs := [''a'', ''a/b'']\<rparr>)"
    by (simp_all add: a)
  with c show ?thesis by blast
qed

subsection \<open>Path queries on a null or empty path\<close>

text \<open>
  Claim C8, as amended. For a null or an empty path, \<open>dFileTouch\<close>, \<open>getFileTimes\<close>,
  \<open>isFile\<close>, \<open>isDirectory\<close> and \<open>getFileSize\<close> call nothing and return the failure value
  (false, or 0 for the size), leaving the world and the output variables as they were.
  \<open>fileDelete\<close> does so for the null pointer; an empty name it passes to \<^verbatim>\<open>remove\<close>, and
  it returns false when \<^verbatim>\<open>remove\<close> fails. \<open>isSubDirectory\<close> tests neither argument: it
  answers false for a null parent, whose composed path is empty, and otherwise gives the
  answer of \<open>isDirectory\<close> on the parent, a separator and the sub-path.
\<close>

theorem path_queries_null_or_empty:
  "(path = None \<or> path = Some [] \<longrightarrow>
       dFileTouch L path w = (False, w)
     \<and> getFileTimes L path createTime modifyTime w = (False, createTime, modifyTime)
     \<and> isFile L path w = False
     \<and> isDirectory L path w = False
     \<and> getFileSize L path w = 0)
   \<and> fileDelete L None w = (False, w)
   \<and> fileDelete L (Some []) w = (fst (remove L [] w) = 0, snd (remove L [] w))
   \<and> isSubDirectory L None pathSub w = False
   \<and> (\<forall>p. isSubDirectory L (Some p) pathSub w =
            isDirectory L
              (Some (take 2047 (p @ ''/'' @ (case pathSub of None \<Rightarrow> [] | Some s \<Rightarrow> s)))) w)"
  by (auto simp: dFileTouch_def getFileTimes_def isFile_def isDirectory_def getFileSize_def
        fileDelete_def isSubDirectory_def dStrcpyl_def MAX_MAC_PATH_LONG_def
      split: option.splits prod.splits)

theorem path_queries_null_or_empty_witness:
  "dFileTouch ram_libc (Some []) ram_game = (False, ram_game)
   \<and> isDirectory ram_libc None ram_game = False
   \<and> getFileSize ram_libc (Some []) ram_game = 0
   \<and> fst (fileDelete ram_libc (Some []) ram_game) = False
   \<and> isSubDirectory ram_libc (Some ''game'') (Some ''art'') ram_game = True"
  using path_queries_null_or_empty [where L = ram_libc and w = ram_game and path = "Some []"
      and pathSub = "Some ''art''"]
    path_queries_null_or_empty [where L = ram_libc and w = ram_game and path = None
      and pathSub = "Some ''art''"]
  by (simp add: ram_defs isDirectory_def)

text \<open>
  The claim as first stated has \<open>isSubDirectory\<close> return false for an empty path. With
  the parent \<^verbatim>\<open>game\<close> and an empty sub-path, the composed path is \<^verbatim>\<open>game/\<close>, a directory.
\<close>

theorem isSubDirectory_empty_counterexample:
  "isSubDirectory ram_libc (Some ''game'') (Some []) ram_game = True"
  by (simp add: isSubDirectory_def isDirectory_def dStrcpyl_def MAX_MAC_PATH_LONG_def ram_defs)

subsection \<open>Directory walks\<close>

lemma nested_dirs_unat:
  "nested_dirs L ex w basePath (unat depth) path =
     concat (map (level_of L ex w basePath depth path) (good_entries L ex w basePath path))"
proof (cases "depth = 0")
  case True
  then show ?thesis by (simp add: level_of_def [abs_def])
next
  case False
  then have "unat depth = Suc (unat (depth - 1))"
    by (metis Suc_pred' unat_gt_0 unat_minus_one)
  with False show ?thesis by (simp add: level_of_def [abs_def])
qed

lemma walk_refines:
  "recurseDumpDirectories L ex w basePath path vec depth nbp =
     (opendir L (basePath @ ''/'' @ path) w \<noteq> None,
      vec @ map (listed_as nbp basePath) (nested_dirs L ex w basePath (unat depth) path))"
  "dumpDirectories_loop L ex w basePath path entries vec depth nbp =
     vec @ map (listed_as nbp basePath)
             (concat (map (level_of L ex w basePath depth path)
                        (filter (isGoodDirectory ex) entries)))"
proof (induction L ex w basePath path vec depth nbp and L ex w basePath path entries vec depth nbp
       rule: recurseDumpDirectories_dumpDirectories_loop.induct)
  case (1 L ex w basePath path directoryVector depth noBasePath)
  show ?case
  proof (cases "opendir L (basePath @ ''/'' @ path) w")
    case None
    then show ?thesis
      by (simp add: nested_dirs_unat good_entries_def recurseDumpDirectories.simps)
  next
    case (Some es)
    with "1.IH" [OF Some] show ?thesis
      by (simp add: nested_dirs_unat good_entries_def recurseDumpDirectories.simps)
  qed
next
  case (2 L ex w basePath path directoryVector depth noBasePath)
  then show ?case by simp
next
  case (3 L ex w basePath path entry rest directoryVector depth noBasePath)
  show ?case
  proof (cases "isGoodDirectory ex entry")
    case False
    with "3.IH"(1) show ?thesis by simp
  next
    case True
    then have gg: "\<not> \<not> isGoodDirectory ex entry" by simp
    define newpath where "newpath = (if length path > 0 then path @ ''/'' @ d_name entry
                        else d_name entry)"
    define pushed where "pushed = (if noBasePath then directoryVector @ [newpath]
                       else directoryVector @ [basePath @ ''/'' @ newpath])"
    define after where "after = (if depth \<noteq> 0 then
                        snd (recurseDumpDirectories L ex w basePath newpath pushed (depth - 1)
                               noBasePath)
                      else pushed)"
    have np: "newpath = child_path path (d_name entry)" by (auto simp: newpath_def child_path_def)
    have pu: "pushed = directoryVector @ [listed_as noBasePath basePath newpath]"
      by (simp add: pushed_def listed_as_def)
    have af: "after = directoryVector @ map (listed_as noBasePath basePath)
                 (level_of L ex w basePath depth path entry)"
    proof (cases "depth = 0")
      case True
      then show ?thesis by (simp add: after_def pu level_of_def np)
    next
      case False
      with "3.IH"(2) [OF gg newpath_def pushed_def False]
      show ?thesis by (simp add: after_def pu level_of_def np)
    qed
    from "3.IH"(3) [OF gg newpath_def pushed_def after_def]
    have "dumpDirectories_loop L ex w basePath path rest after depth noBasePath =
       after @ map (listed_as noBasePath basePath)
        (concat (map (level_of L ex w basePath depth path) (filter (isGoodDirectory ex) rest)))" .
    moreover have "dumpDirectories_loop L ex w basePath path (entry # rest) directoryVector depth noBasePath
       = dumpDirectories_loop L ex w basePath path rest after depth noBasePath"
      using True by (simp add: Let_def after_def pushed_def newpath_def)
    ultimately show ?thesis using True af by simp
  qed
qed

lemma below_0: "below L ex w basePath path 0 p \<longleftrightarrow>
   (\<exists>e \<in> set (good_entries L ex w basePath path). p = child_path path (d_name e))"
  by (subst below.simps) auto

lemma below_Suc: "below L ex w basePath path (Suc k) p \<longleftrightarrow>
   (\<exists>e \<in> set (good_entries L ex w basePath path).
      below L ex w basePath (child_path path (d_name e)) k p)"
  by (subst below.simps) auto

lemma nested_dirs_below:
  "p \<in> set (nested_dirs L ex w basePath n path) \<longleftrightarrow> (\<exists>k\<le>n. below L ex w basePath path k p)"
proof (induction n arbitrary: path)
  case 0
  show ?case by (auto simp: below_0)
next
  case (Suc n)
  show ?case
  proof
    assume "p \<in> set (nested_dirs L ex w basePath (Suc n) path)"
    then obtain e where e: "e \<in> set (good_entries L ex w basePath path)"
      and d: "p = child_path path (d_name e)
              \<or> p \<in> set (nested_dirs L ex w basePath n (child_path path (d_name e)))"
      by auto
    from d show "\<exists>k\<le>Suc n. below L ex w basePath path k p"
    proof
      assume "p = child_path path (d_name e)"
      with e have "below L ex w basePath path 0 p" by (auto simp: below_0)
      then show ?thesis by blast
    next
      assume "p \<in> set (nested_dirs L ex w basePath n (child_path path (d_name e)))"
      with Suc.IH obtain k where "k \<le> n"
        and "below L ex w basePath (child_path path (d_name e)) k p" by blast
      with e have "Suc k \<le> Suc n" and "below L ex w basePath path (Suc k) p"
        by (auto simp: below_Suc)
      then show ?thesis by blast
    qed
  next
    assume "\<exists>k\<le>Suc n. below L ex w basePath path k p"
    then obtain k where k: "k \<le> Suc n" and b: "below L ex w basePath path k p" by blast
    show "p \<in> set (nested_dirs L ex w basePath (Suc n) path)"
    proof (cases k)
      case 0
      with b show ?thesis by (auto simp: below_0)
    next
      case (Suc k')
      with b obtain e where e: "e \<in> set (good_entries L ex w basePath path)"
        and b': "below L ex w basePath (child_path path (d_name e)) k' p"
        by (auto simp: below_Suc)
      from k Suc have "k' \<le> n" by simp
      with b' Suc.IH have "p \<in> set (nested_dirs L ex w basePath n (child_path path (d_name e)))"
        by blast
      with e show ?thesis by auto
    qed
  qed
qed

lemma good_entries_iff:
  "e \<in> set (good_entries L ex w basePath path) \<longleftrightarrow>
     (\<exists>entries. opendir L (basePath @ ''/'' @ path) w = Some entries \<and> e \<in> set entries
        \<and> isGoodDirectory ex e)"
  by (cases "opendir L (basePath @ ''/'' @ path) w") (auto simp: good_entries_def)

lemma below_named:
  "below L ex w basePath path k p \<Longrightarrow>
     \<exists>parent entries e. opendir L (basePath @ ''/'' @ parent) w = Some entries
       \<and> e \<in> set entries \<and> isGoodDirectory ex e \<and> p = child_path parent (d_name e)"
proof (induction rule: below.induct)
  case (below_entry e path)
  then show ?case unfolding good_entries_iff by blast
next
  case (below_deeper e path k p)
  then show ?case by blast
qed

lemma isGoodDirectory_name:
  "isGoodDirectory ex e \<Longrightarrow> d_name e \<noteq> ''.'' \<and> d_name e \<noteq> ''..'' \<and> d_name e \<notin> set ex
     \<and> d_type e = DT_DIR"
  by (simp add: isGoodDirectory_def isExcludedDirectory_def)

lemma dumpDirectories_eq:
  "dumpDirectories L ex w path vec depth nbp =
     (opendir L (path @ ''/'') w \<noteq> None,
      vec @ (if nbp then [] else [path])
          @ map (listed_as nbp path) (nested_dirs L ex w path (unat depth) []))"
  by (simp add: dumpDirectories_def Let_def c_str_at_def walk_refines)

lemma unat_minus_1_U32: "unat (- 1 :: S32) = 2 ^ 32 - 1"
  by (simp add: unsigned_minus_1_eq_mask mask_eq_exp_minus_1)


text \<open>
  Claim C4, as amended. \<open>dumpDirectories\<close> first appends the root path itself when
  \<open>noBasePath\<close> is false. With depth 0 it then appends only the immediate subdirectories
  of the root, in the order of the listing. With any depth it appends the directories
  found down to that many further levels, each before its contents; with depth \<open>-1\<close>
  every nested directory that is reached through accepted entries of directories that
  open (fewer than \<open>2^32\<close> levels down) is appended. Every entry appended after the root
  stands for an entry of type directory of some listing whose name is not \<^verbatim>\<open>.\<close>, not
  \<^verbatim>\<open>..\<close> and not on the exclusion list, and is the path relative to the root when
  \<open>noBasePath\<close> is true and the root, a separator and that path when it is false.
\<close>

theorem dumpDirectories_walk:
  "snd (dumpDirectories L ex w path vec 0 noBasePath) =
      vec @ (if noBasePath then [] else [path])
          @ map (\<lambda>e. listed_as noBasePath path (d_name e)) (good_entries L ex w path [])
   \<and> snd (dumpDirectories L ex w path vec depth noBasePath) =
      vec @ (if noBasePath then [] else [path])
          @ map (listed_as noBasePath path) (nested_dirs L ex w path (unat depth) [])
   \<and> (\<forall>k p. k < 2 ^ 32 \<and> below L ex w path [] k p \<longrightarrow>
         listed_as noBasePath path p
           \<in> set (snd (dumpDirectories L ex w path vec (- 1) noBasePath)))
   \<and> (\<forall>p \<in> set (nested_dirs L ex w path (unat depth) []).
         \<exists>parent entries e.
           opendir L (path @ ''/'' @ parent) w = Some entries \<and> e \<in> set entries
           \<and> p = child_path parent (d_name e) \<and> d_type e = DT_DIR
           \<and> d_name e \<noteq> ''.'' \<and> d_name e \<noteq> ''..'' \<and> d_name e \<notin> set ex)
   \<and> listed_as True path p = p \<and> listed_as False path p = path @ ''/'' @ p"
proof (intro conjI allI impI ballI)
  show "snd (dumpDirectories L ex w path vec 0 noBasePath) =
      vec @ (if noBasePath then [] else [path])
          @ map (\<lambda>e. listed_as noBasePath path (d_name e)) (good_entries L ex w path [])"
    by (simp add: dumpDirectories_eq child_path_def o_def)
next
  show "snd (dumpDirectories L ex w path vec depth noBasePath) =
      vec @ (if noBasePath then [] else [path])
          @ map (listed_as noBasePath path) (nested_dirs L ex w path (unat depth) [])"
    by (simp add: dumpDirectories_eq)
next
  fix k p
  assume a: "k < 2 ^ 32 \<and> below L ex w path [] k p"
  then have "k \<le> unat (- 1 :: S32)" by (simp add: unat_minus_1_U32)
  with a have "p \<in> set (nested_dirs L ex w path (unat (- 1 :: S32)) [])"
    unfolding nested_dirs_below by blast
  then show "listed_as noBasePath path p
           \<in> set (snd (dumpDirectories L ex w path vec (- 1) noBasePath))"
    unfolding dumpDirectories_eq by simp
next
  fix p
  assume "p \<in> set (nested_dirs L ex w path (unat depth) [])"
  then obtain k where "below L ex w path [] k p" unfolding nested_dirs_below by blast
  from below_named [OF this] obtain parent entries e
    where "opendir L (path @ ''/'' @ parent) w = Some entries" "e \<in> set entries"
      "isGoodDirectory ex e" "p = child_path parent (d_name e)" by blast
  with isGoodDirectory_name [of ex e]
  show "\<exists>parent entries e.
           opendir L (path @ ''/'' @ parent) w = Some entries \<and> e \<in> set entries
           \<and> p = child_path parent (d_name e) \<and> d_type e = DT_DIR
           \<and> d_name e \<noteq> ''.'' \<and> d_name e \<noteq> ''..'' \<and> d_name e \<notin> set ex" by blast
next
  show "listed_as True path p = p" by (simp add: listed_as_def)
next
  show "listed_as False path p = path @ ''/'' @ p" by (simp add: listed_as_def)
qed


theorem dumpDirectories_walk_witness:
  "snd (dumpDirectories ram_libc [''.svn''] ram_game ''game'' [] 0 True) = [''art'', ''vault'']
   \<and> ''game/art/tiles''
       \<in> set (snd (dumpDirectories ram_libc [''.svn''] ram_game ''game'' [] (- 1) False))
   \<and> ''game/.svn''
       \<notin> set (snd (dumpDirectories ram_libc [''.svn''] ram_game ''game'' [] (- 1) False))"
proof -
  note T = dumpDirectories_walk [where L = ram_libc and ex = "[''.svn'']" and w = ram_game
      and path = "''game''" and vec = "[]"]
  have g0: "good_entries ram_libc [''.svn''] ram_game ''game'' [] =
      [\<lparr>d_name = ''art'', d_type = DT_DIR\<rparr>, \<lparr>d_name = ''vault'', d_type = DT_DIR\<rparr>]"
    by (simp add: good_entries_def isGoodDirectory_def isExcludedDirectory_def ram_defs)
  have g1: "good_entries ram_libc [''.svn''] ram_game ''game'' ''art'' =
      [\<lparr>d_name = ''tiles'', d_type = DT_DIR\<rparr>]"
    by (simp add: good_entries_def isGoodDirectory_def isExcludedDirectory_def ram_defs)
  have "below ram_libc [''.svn''] ram_game ''game'' ''art'' 0
          (child_path ''art'' (d_name \<lparr>d_name = ''tiles'', d_type = DT_DIR\<rparr>))"
    by (rule below_entry) (simp add: g1)
  then have "below ram_libc [''.svn''] ram_game ''game''
          (child_path [] (d_name \<lparr>d_name = ''art'', d_type = DT_DIR\<rparr>)) 0 ''art/tiles''"
    by (simp add: child_path_def)
  then have b: "below ram_libc [''.svn''] ram_game ''game'' [] (Suc 0) ''art/tiles''"
    by (rule below_deeper [rotated]) (simp add: g0)
  from T [where noBasePath = True, THEN conjunct1]
  have p1: "snd (dumpDirectories ram_libc [''.svn''] ram_game ''game'' [] 0 True)
      = [''art'', ''vault'']"
    by (simp add: g0 listed_as_def)
  from T [where noBasePath = False, THEN conjunct2, THEN conjunct2, THEN conjunct1,
      rule_format, of "Suc 0" "''art/tiles''"] b
  have p2: "''game/art/tiles''
       \<in> set (snd (dumpDirectories ram_libc [''.svn''] ram_game ''game'' [] (- 1) False))"
    by (simp add: listed_as_def)
  have p3: "''game/.svn''
       \<notin> set (snd (dumpDirectories ram_libc [''.svn''] ram_game ''game'' [] (- 1) False))"
    by (simp add: dumpDirectories_def recurseDumpDirectories.simps Let_def c_str_at_def
        isGoodDirectory_def isExcludedDirectory_def ram_defs)
  from p1 p2 p3 show ?thesis by blast
qed


text \<open>
  The claim as first stated has a walk of depth 0 return only the immediate
  subdirectories of the root. With \<open>noBasePath\<close> false the walk of \<^verbatim>\<open>game\<close> returns
  \<^verbatim>\<open>game\<close> itself before them.
\<close>

theorem dumpDirectories_root_counterexample:
  "snd (dumpDirectories ram_libc [''.svn''] ram_game ''game'' [] 0 False)
     = [''game'', ''game/art'', ''game/vault'']"
  by (simp add: dumpDirectories_def recurseDumpDirectories.simps Let_def c_str_at_def
        isGoodDirectory_def isExcludedDirectory_def ram_defs)


text \<open>
  Claim C5, as amended. \<open>dumpDirectories\<close> returns false exactly when the directory it
  opens for the root does not open, and that directory is the given path followed by a
  separator. \<open>dumpPath\<close>, for a path that is not empty, returns false exactly when the
  directory it opens for the root does not open, and that directory is the given path
  without one trailing separator. A recursive call on a directory that does not open
  returns false and the vector as it was; the loop ignores that result and goes on with
  the next entry, so that the branch adds nothing below the directory and the walk still
  returns true.
\<close>

theorem walks_fail_at_root_only:
  "(fst (dumpDirectories L ex w path vec depth noBasePath) = False
      \<longleftrightarrow> opendir L (path @ ''/'') w = None)
   \<and> (path \<noteq> [] \<longrightarrow>
        (\<exists>r. dumpPath L ex pathbuf w path fvec depth = Some r
           \<and> (fst r = False
                \<longleftrightarrow> opendir L (if last path = CHR ''/'' then butlast path else path) w = None)))
   \<and> (opendir L (basePath @ ''/'' @ sub) w = None \<longrightarrow>
        recurseDumpDirectories L ex w basePath sub vec depth noBasePath = (False, vec))
   \<and> (opendir L cur w = None \<longrightarrow>
        recurseDumpPath L ex pathbuf w cur fvec d = (False, fvec))
   \<and> (isGoodDirectory ex e
        \<and> opendir L (basePath @ ''/'' @ child_path sub (d_name e)) w = None \<longrightarrow>
        dumpDirectories_loop L ex w basePath sub (e # rest) vec depth noBasePath =
          dumpDirectories_loop L ex w basePath sub rest
            (vec @ [listed_as noBasePath basePath (child_path sub (d_name e))]) depth
            noBasePath)
   \<and> (d_type e = DT_DIR \<and> opendir L (pathbuf cur e) w = None \<longrightarrow>
        dumpPath_loop L ex pathbuf w cur (e # rest) fvec d =
          dumpPath_loop L ex pathbuf w cur rest fvec d)"
proof (intro conjI impI)
  show "fst (dumpDirectories L ex w path vec depth noBasePath) = False
      \<longleftrightarrow> opendir L (path @ ''/'') w = None"
    by (simp add: dumpDirectories_eq)
next
  assume "path \<noteq> []"
  then show "\<exists>r. dumpPath L ex pathbuf w path fvec depth = Some r
           \<and> (fst r = False
                \<longleftrightarrow> opendir L (if last path = CHR ''/'' then butlast path else path) w = None)"
    by (auto simp: dumpPath_def Let_def recurseDumpPath.simps split: option.splits)
next
  assume "opendir L (basePath @ ''/'' @ sub) w = None"
  then show "recurseDumpDirectories L ex w basePath sub vec depth noBasePath = (False, vec)"
    by (simp add: recurseDumpDirectories.simps)
next
  assume "opendir L cur w = None"
  then show "recurseDumpPath L ex pathbuf w cur fvec d = (False, fvec)"
    by (simp add: recurseDumpPath.simps)
next
  assume "isGoodDirectory ex e
        \<and> opendir L (basePath @ ''/'' @ child_path sub (d_name e)) w = None"
  then show "dumpDirectories_loop L ex w basePath sub (e # rest) vec depth noBasePath =
          dumpDirectories_loop L ex w basePath sub rest
            (vec @ [listed_as noBasePath basePath (child_path sub (d_name e))]) depth
            noBasePath"
    by (auto simp: Let_def recurseDumpDirectories.simps child_path_def listed_as_def)
next
  assume "d_type e = DT_DIR \<and> opendir L (pathbuf cur e) w = None"
  then show "dumpPath_loop L ex pathbuf w cur (e # rest) fvec d =
          dumpPath_loop L ex pathbuf w cur rest fvec d"
    by (simp add: recurseDumpPath.simps)
qed

theorem walks_fail_at_root_only_witness:
  "dumpDirectories ram_libc [''.svn''] ram_game ''game'' [] (- 1) False
     = (True, [''game'', ''game/art'', ''game/art/tiles'', ''game/vault''])
   \<and> opendir ram_libc ''game/vault'' ram_game = None
   \<and> fst (dumpDirectories ram_libc [''.svn''] ram_game ''nowhere'' [] (- 1) False) = False
   \<and> dumpPath ram_libc [''.svn''] empty_pathbuf ram_game ''game/'' [] (- 1)
       = Some (True, [\<lparr>pFullPath = ''game'', pFileName = ''main.cs'', fileSize = 0\<rparr>])
   \<and> dumpPath ram_libc [''.svn''] empty_pathbuf ram_game ''game/vault'' [] (- 1)
       = Some (False, [])"
proof -
  note T = walks_fail_at_root_only [where L = ram_libc and ex = "[''.svn'']" and w = ram_game
      and vec = "[]" and fvec = "[]" and depth = "- 1" and noBasePath = False
      and pathbuf = empty_pathbuf]
  have o1: "opendir ram_libc ''game/vault'' ram_game = None" by (simp add: ram_defs)
  have o2: "opendir ram_libc ''nowhere/'' ram_game = None" by (simp add: ram_defs)
  have p1: "dumpDirectories ram_libc [''.svn''] ram_game ''game'' [] (- 1) False
     = (True, [''game'', ''game/art'', ''game/art/tiles'', ''game/vault''])"
    by (simp add: dumpDirectories_def recurseDumpDirectories.simps Let_def c_str_at_def
        isGoodDirectory_def isExcludedDirectory_def ram_defs)
  from T [where path = "''nowhere''", THEN conjunct1] o2
  have p2: "fst (dumpDirectories ram_libc [''.svn''] ram_game ''nowhere'' [] (- 1) False) = False"
    by simp
  have p3: "dumpPath ram_libc [''.svn''] empty_pathbuf ram_game ''game/'' [] (- 1)
       = Some (True, [\<lparr>pFullPath = ''game'', pFileName = ''main.cs'', fileSize = 0\<rparr>])"
    by (simp add: dumpPath_def recurseDumpPath.simps Let_def getFileSize_def empty_pathbuf_def
        isGoodDirectory_def isExcludedDirectory_def ram_defs)
  from T [where path = "''game/vault''", THEN conjunct2, THEN conjunct1] o1
  have p4: "dumpPath ram_libc [''.svn''] empty_pathbuf ram_game ''game/vault'' []
       (- 1) = Some (False, [])"
    by (auto simp: dumpPath_def recurseDumpPath.simps)
  from p1 o1 p2 p3 p4 show ?thesis by blast
qed

text \<open>
  The claim as first stated has both walks return false exactly when the root path does
  not open. Where the only directory is \<^verbatim>\<open>/\<close>: the empty path does not open, and
  \<open>dumpDirectories\<close> of the empty path opens \<^verbatim>\<open>/\<close> and returns true; the path \<^verbatim>\<open>/\<close> opens,
  and \<open>dumpPath\<close> of \<^verbatim>\<open>/\<close> opens the empty path and returns false.
\<close>

theorem walks_root_path_counterexample:
  "opendir ram_libc_slash [] ram_empty = None
   \<and> fst (dumpDirectories ram_libc_slash [] ram_empty [] [] 0 True) = True
   \<and> opendir ram_libc_slash ''/'' ram_empty \<noteq> None
   \<and> dumpPath ram_libc_slash [] empty_pathbuf ram_empty ''/'' [] 0 = Some (False, [])"
  by (simp add: ram_libc_slash_def ram_libc_def dumpDirectories_def dumpPath_def
        recurseDumpDirectories.simps recurseDumpPath.simps Let_def c_str_at_def
        isGoodDirectory_def)

end
